theory Spec2Isabelle
  imports Complex_Main
begin

section \<open>Sinusoid extraction and harmonic coupling of timeseries\_functions.py\<close>

text \<open>
  The development embeds the prewhitening loop, the harmonic-locking procedure and the
  frequency-reduction procedure of \<^verbatim>\<open>timeseries_functions.py\<close>.

  Conventions of the embedding.
  \<^item> A numpy array of floats is a \<open>real list\<close>; a float is a \<open>real\<close>. Rounding
    error, \<open>nan\<close> and signed zeros are not represented; \<open>np.inf\<close>, which the loops use
    as the initial value of \<open>bic_prev\<close>, is the constructor \<open>PInf\<close> of \<open>bound\<close>.
  \<^item> An index array is a \<open>nat list\<close>; the segment table \<open>i_sectors\<close> is a list of
    pairs \<open>(start, end)\<close>.
  \<^item> The two \<^verbatim>\<open>raise ValueError('No harmonic frequencies found')\<close> statements are
    the value \<open>Inl NoHarmonicsFound\<close>.
  \<^item> A \<^verbatim>\<open>while\<close> loop whose exit depends on the data is a
    \<^theory_text>\<open>partial_function (option)\<close>: \<open>None\<close> is a run that never leaves the loop.
  \<^item> The functions of the module \<^verbatim>\<open>analysis_functions\<close> (imported as \<^verbatim>\<open>af\<close>) are
    not part of the sources at hand; the record \<open>af_module\<close> carries them as parameters.
\<close>

subsection \<open>numpy and Python primitives\<close>

text \<open>\<^verbatim>\<open>np.ptp\<close>: maximum minus minimum.\<close>

definition np_max :: "real list \<Rightarrow> real" where
  "np_max xs = fold max (tl xs) (hd xs)"

definition np_min :: "real list \<Rightarrow> real" where
  "np_min xs = fold min (tl xs) (hd xs)"

definition np_ptp :: "real list \<Rightarrow> real" where
  "np_ptp xs = np_max xs - np_min xs"

text \<open>\<^verbatim>\<open>np.mean\<close> and elementwise arithmetic on arrays of equal length.\<close>

definition np_mean :: "real list \<Rightarrow> real" where
  "np_mean xs = sum_list xs / real (length xs)"

definition vsub :: "real list \<Rightarrow> real list \<Rightarrow> real list" where
  "vsub xs ys = map2 (\<lambda>x y. x - y) xs ys"

definition vadd :: "real list \<Rightarrow> real list \<Rightarrow> real list" where
  "vadd xs ys = map2 (\<lambda>x y. x + y) xs ys"

definition vdiv :: "real list \<Rightarrow> real list \<Rightarrow> real list" where
  "vdiv xs ys = map2 (\<lambda>x y. x / y) xs ys"

text \<open>The slice \<^verbatim>\<open>xs[a:b]\<close> for non-negative bounds.\<close>

definition slice :: "'a list \<Rightarrow> nat \<Rightarrow> nat \<Rightarrow> 'a list" where
  "slice xs a b = take (b - a) (drop a xs)"

text \<open>\<^verbatim>\<open>np.delete(xs, idx)\<close>: the array without the positions listed in \<open>idx\<close>.\<close>

definition np_delete :: "'a list \<Rightarrow> nat list \<Rightarrow> 'a list" where
  "np_delete xs idx = map fst (filter (\<lambda>p. snd p \<notin> set idx) (zip xs [0..<length xs]))"

text \<open>\<^verbatim>\<open>np.argmax\<close>: the first position of the maximum.\<close>

fun np_argmax_from :: "real list \<Rightarrow> nat \<Rightarrow> nat \<Rightarrow> real \<Rightarrow> nat" where
  "np_argmax_from [] i best v = best"
| "np_argmax_from (x # xs) i best v =
     (if x > v then np_argmax_from xs (Suc i) i x else np_argmax_from xs (Suc i) best v)"

definition np_argmax :: "real list \<Rightarrow> nat" where
  "np_argmax xs = (case xs of [] \<Rightarrow> 0 | x # ys \<Rightarrow> np_argmax_from ys 1 0 x)"

text \<open>
  Python's float \<^verbatim>\<open>%\<close> and \<^verbatim>\<open>np.mod\<close>: the remainder takes the sign of the divisor.
\<close>

definition py_mod :: "real \<Rightarrow> real \<Rightarrow> real" where
  "py_mod x y = x - of_int \<lfloor>x / y\<rfloor> * y"

text \<open>\<^verbatim>\<open>np.round(x, 2)\<close>: scale by 100, round half to even, scale back.\<close>

definition np_rint :: "real \<Rightarrow> int" where
  "np_rint x =
     (let f = \<lfloor>x\<rfloor>; d = x - of_int f
      in if d < 1 / 2 then f else if d > 1 / 2 then f + 1 else if even f then f else f + 1)"

definition np_round2 :: "real \<Rightarrow> real" where
  "np_round2 x = of_int (np_rint (x * 100)) / 100"

text \<open>\<^verbatim>\<open>np.arctan2(y, x)\<close>, the angle of the point \<open>(x, y)\<close> in \<open>(-pi, pi]\<close>.\<close>

definition arctan2 :: "real \<Rightarrow> real \<Rightarrow> real" where
  "arctan2 y x =
     (if x > 0 then arctan (y / x)
      else if x < 0 \<and> y \<ge> 0 then arctan (y / x) + pi
      else if x < 0 then arctan (y / x) - pi
      else if y > 0 then pi / 2
      else if y < 0 then - (pi / 2)
      else 0)"

text \<open>The initial value \<^verbatim>\<open>np.inf\<close> of \<open>bic_prev\<close>, and the differences taken from it.\<close>

datatype bound = PInf | Fin real

text \<open>
  \<open>diff_gt b x c\<close> is the test \<^verbatim>\<open>b - x > c\<close> and \<open>round_diff_gt b x c\<close> the test
  \<^verbatim>\<open>np.round(b - x, 2) > c\<close>; with \<open>b\<close> infinite both differences are infinite.
\<close>

fun diff_gt :: "bound \<Rightarrow> real \<Rightarrow> real \<Rightarrow> bool" where
  "diff_gt PInf x c = True"
| "diff_gt (Fin b) x c = (b - x > c)"

fun round_diff_gt :: "bound \<Rightarrow> real \<Rightarrow> real \<Rightarrow> bool" where
  "round_diff_gt PInf x c = True"
| "round_diff_gt (Fin b) x c = (np_round2 (b - x) > c)"

subsection \<open>Model-selection oracle\<close>

text \<open>
  \<^verbatim>\<open>calc_bic(residuals, n_param)\<close>: the loop accumulates \<open>sum_r_2\<close> over the residuals in
  order, then \<^verbatim>\<open>bic = n * np.log(2 * np.pi * sum_r_2 / n) + n + n_param * np.log(n)\<close>.
  On an empty array the source divides by \<open>n = 0\<close>; the statements about \<open>calc_bic\<close>
  are for non-empty arrays.
\<close>

definition calc_bic :: "real list \<Rightarrow> int \<Rightarrow> real" where
  "calc_bic residuals n_param =
     (let n = length residuals;
          sum_r_2 = fold (\<lambda>r s. s + r ^ 2) residuals 0
      in real n * ln (2 * pi * sum_r_2 / real n) + real n + of_int n_param * ln (real n))"

subsection \<open>Linear trend estimator\<close>

text \<open>
  \<^verbatim>\<open>linear_curve\<close>: the curve starts at zero and every segment \<open>s\<close> overwrites the
  positions \<^verbatim>\<open>s[0]:s[1]\<close> with \<open>co + sl * times\<close>, in the order of \<open>zip\<close>.
\<close>

definition linear_curve ::
  "real list \<Rightarrow> real list \<Rightarrow> real list \<Rightarrow> (nat \<times> nat) list \<Rightarrow> real list" where
  "linear_curve times' const slope i_sectors =
     fold (\<lambda>(co, sl, s) curve.
             map (\<lambda>i. if fst s \<le> i \<and> i < snd s then co + sl * times' ! i else curve ! i)
               [0..<length times'])
          (zip const (zip slope i_sectors))
          (replicate (length times') 0)"

text \<open>\<^verbatim>\<open>linear_pars\<close>: ordinary least squares on every segment, from mean-centred sums.\<close>

definition linear_pars ::
  "real list \<Rightarrow> real list \<Rightarrow> (nat \<times> nat) list \<Rightarrow> real list \<times> real list" where
  "linear_pars times' signal i_sectors =
     (let pars = map (\<lambda>s.
            let x_m = np_mean (slice times' (fst s) (snd s));
                x_ms = map (\<lambda>x. x - x_m) (slice times' (fst s) (snd s));
                y_m = np_mean (slice signal (fst s) (snd s));
                y_ms = map (\<lambda>y. y - y_m) (slice signal (fst s) (snd s));
                s_xx = sum_list (map (\<lambda>x. x ^ 2) x_ms);
                s_xy = sum_list (map2 (\<lambda>x y. x * y) x_ms y_ms);
                sl = s_xy / s_xx
            in (y_m - sl * x_m, sl)) i_sectors
      in (map fst pars, map snd pars))"

subsection \<open>Sum of sine waves\<close>

definition sum_sines :: "real list \<Rightarrow> real list \<Rightarrow> real list \<Rightarrow> real list \<Rightarrow> real list" where
  "sum_sines times' f_n a_n ph_n =
     fold (\<lambda>(f, a, ph) model_sines.
             map2 (\<lambda>m t. m + a * sin (2 * pi * f * t + ph)) model_sines times')
          (zip f_n (zip a_n ph_n))
          (replicate (length times') 0)"

subsection \<open>Periodogram engine\<close>

text \<open>Python's \<^verbatim>\<open>int(x)\<close> on a float truncates towards zero.\<close>

definition py_int :: "real \<Rightarrow> int" where
  "py_int x = (if x \<ge> 0 then \<lfloor>x\<rfloor> else \<lceil>x\<rceil>)"

text \<open>
  The inner loop of \<^verbatim>\<open>scargle\<close> over the \<open>nf\<close> frequencies, for one sample: at
  every frequency it adds \<open>(sin_f0_s, cos_f0_s, mc_1_a, mc_1_b)\<close> to \<open>(ss, sc, ss2, sc2)\<close>
  and then rotates both pairs by the angle of one frequency step.
\<close>

fun scargle_inner ::
  "nat \<Rightarrow> real \<times> real \<times> real \<times> real \<Rightarrow> real \<times> real \<times> real \<times> real
     \<Rightarrow> (real \<times> real \<times> real \<times> real) list" where
  "scargle_inner 0 rot st = []"
| "scargle_inner (Suc k) (sin_df, cos_df, mc_2_a, mc_2_b) (sin_f0_s, cos_f0_s, mc_1_a, mc_1_b) =
     (sin_f0_s, cos_f0_s, mc_1_a, mc_1_b) #
     scargle_inner k (sin_df, cos_df, mc_2_a, mc_2_b)
       (sin_f0_s * cos_df + cos_f0_s * sin_df,
        cos_f0_s * cos_df - sin_f0_s * sin_df,
        mc_1_a * mc_2_b + mc_1_b * mc_2_a,
        mc_1_b * mc_2_b - mc_1_a * mc_2_a)"

definition add4 ::
  "real \<times> real \<times> real \<times> real \<Rightarrow> real \<times> real \<times> real \<times> real \<Rightarrow> real \<times> real \<times> real \<times> real" where
  "add4 = (\<lambda>(a, b, c, d) (a', b', c', d'). (a + a', b + b', c + c', d + d'))"

text \<open>
  \<^verbatim>\<open>scargle(times, signal, f0, fn, df)\<close> with the default normalisation
  \<^verbatim>\<open>'amplitude'\<close>. A non-finite \<^verbatim>\<open>s1[0]\<close> comes from a zero denominator, and is set
  to zero.
\<close>

definition scargle ::
  "real list \<Rightarrow> real list \<Rightarrow> real \<Rightarrow> real \<Rightarrow> real \<Rightarrow> real list \<times> real list" where
  "scargle times' signal f0 fn df =
     (let n = real (length signal);
          t_tot = np_ptp times';
          f0 = max f0 (0.01 / t_tot);
          df = (if df = 0 then 0.1 / t_tot else df);
          fn = (if fn = 0 then 1 / (2 * np_min (vsub (tl times') (butlast times'))) else fn);
          nf = nat (py_int ((fn - f0) / df + 0.001) + 1);
          two_pi = 2 * pi;
          acc = fold (\<lambda>(t, y) acc.
                  let t_f0 = py_mod (t * two_pi * f0) two_pi;
                      sin_f0 = sin t_f0;
                      cos_f0 = cos t_f0;
                      mc_1_a = 2 * sin_f0 * cos_f0;
                      mc_1_b = cos_f0 * cos_f0 - sin_f0 * sin_f0;
                      t_df = py_mod (t * two_pi * df) two_pi;
                      sin_df = sin t_df;
                      cos_df = cos t_df;
                      mc_2_a = 2 * sin_df * cos_df;
                      mc_2_b = cos_df * cos_df - sin_df * sin_df
                  in map2 add4 acc
                       (scargle_inner nf (sin_df, cos_df, mc_2_a, mc_2_b)
                          (sin_f0 * y, cos_f0 * y, mc_1_a, mc_1_b)))
                (zip times' signal) (replicate nf (0, 0, 0, 0));
          f1 = map (\<lambda>j. f0 + real j * df) [0..<nf];
          s1 = map (\<lambda>(ss, sc, ss2, sc2).
                  (sc ^ 2 * (n - sc2) + ss ^ 2 * (n + sc2) - 2 * ss * sc * ss2)
                    / (n ^ 2 - sc2 ^ 2 - ss2 ^ 2)) acc;
          s1 = (case acc of [] \<Rightarrow> s1
                | (ss, sc, ss2, sc2) # _ \<Rightarrow>
                    if n ^ 2 - sc2 ^ 2 - ss2 ^ 2 = 0 then 0 # tl s1 else s1)
      in (f1, map (\<lambda>s. sqrt (4 / n) * sqrt s) s1))"

text \<open>
  The single-frequency amplitude and phase. The accumulations \<^verbatim>\<open>x += ...\<close> from zero
  are written as sums over the samples.
\<close>

definition scargle_ampl_single :: "real list \<Rightarrow> real list \<Rightarrow> real \<Rightarrow> real" where
  "scargle_ampl_single times' signal f =
     (let two_pi = 2 * pi;
          four_pi = 4 * pi;
          cos_tau = (\<Sum>t\<leftarrow>times'. cos (four_pi * f * t));
          sin_tau = (\<Sum>t\<leftarrow>times'. sin (four_pi * f * t));
          tau = 1 / (four_pi * f) * arctan2 sin_tau cos_tau;
          s_cos = (\<Sum>(t, y)\<leftarrow>zip times' signal. y * cos (two_pi * f * (t - tau)));
          cos_2 = (\<Sum>t\<leftarrow>times'. (cos (two_pi * f * (t - tau))) ^ 2);
          s_sin = (\<Sum>(t, y)\<leftarrow>zip times' signal. y * sin (two_pi * f * (t - tau)));
          sin_2 = (\<Sum>t\<leftarrow>times'. (sin (two_pi * f * (t - tau))) ^ 2);
          a_cos_2 = s_cos ^ 2 / cos_2;
          b_sin_2 = s_sin ^ 2 / sin_2;
          ampl = (a_cos_2 + b_sin_2) / 2
      in sqrt (4 / real (length times')) * sqrt ampl)"

definition scargle_phase_single :: "real list \<Rightarrow> real list \<Rightarrow> real \<Rightarrow> real" where
  "scargle_phase_single times' signal f =
     (let two_pi = 2 * pi;
          four_pi = 4 * pi;
          cos_tau = (\<Sum>t\<leftarrow>times'. cos (four_pi * f * t));
          sin_tau = (\<Sum>t\<leftarrow>times'. sin (four_pi * f * t));
          tau = 1 / (four_pi * f) * arctan2 sin_tau cos_tau;
          s_cos = (\<Sum>(t, y)\<leftarrow>zip times' signal. y * cos (two_pi * f * (t - tau)));
          cos_2 = (\<Sum>t\<leftarrow>times'. (cos (two_pi * f * (t - tau))) ^ 2);
          s_sin = (\<Sum>(t, y)\<leftarrow>zip times' signal. y * sin (two_pi * f * (t - tau)));
          sin_2 = (\<Sum>t\<leftarrow>times'. (sin (two_pi * f * (t - tau))) ^ 2);
          a_cos = s_cos / sqrt cos_2;
          b_sin = s_sin / sqrt sin_2
      in pi / 2 - arctan2 b_sin a_cos - two_pi * f * tau)"



subsection \<open>Single-frequency extractor\<close>

text \<open>
  The wrap \<^verbatim>\<open>(ph + np.pi) % (2 * np.pi) - np.pi\<close>, also written
  \<^verbatim>\<open>np.mod(ph + np.pi, 2 * np.pi) - np.pi\<close> in the source.
\<close>

definition wrap_phase :: "real \<Rightarrow> real" where
  "wrap_phase ph = py_mod (ph + pi) (2 * pi) - pi"

text \<open>\<^verbatim>\<open>extract_single(times, signal, f0, fn)\<close>; the advisory prints are left out.\<close>

definition extract_single ::
  "real list \<Rightarrow> real list \<Rightarrow> real \<Rightarrow> real \<Rightarrow> real \<times> real \<times> real" where
  "extract_single times' signal f0 fn =
     (let df = 0.1 / np_ptp times';
          (freqs, ampls) = scargle times' signal f0 fn df;
          p1 = np_argmax ampls;
          f_left_1 = max (freqs ! p1 - df) (0.01 / np_ptp times');
          f_right_1 = freqs ! p1 + df;
          (f_refine_1, a_refine_1) = scargle times' signal f_left_1 f_right_1 (df / 100);
          p2 = np_argmax a_refine_1;
          f_final = f_refine_1 ! p2;
          a_final = a_refine_1 ! p2;
          ph_final = scargle_phase_single times' signal f_final;
          ph_final = wrap_phase ph_final
      in (f_final, a_final, ph_final))"

subsection \<open>The module analysis\_functions\<close>

text \<open>
  The four functions of \<^verbatim>\<open>af\<close> that the procedures call. Their code is not among the
  sources, so every procedure takes them as the fields of a record. An index array is
  a list of positions; harmonic numbers are positive integers.
  \<open>find_harmonics_from_pattern\<close> is the call with the default tolerance,
  \<^verbatim>\<open>af.find_harmonics_from_pattern(f_n, p_orb)\<close>.
\<close>

record af_module =
  f_within_rayleigh :: "nat \<Rightarrow> real list \<Rightarrow> real \<Rightarrow> nat list"
  chains_within_rayleigh :: "real list \<Rightarrow> real \<Rightarrow> nat list list"
  find_harmonics_from_pattern :: "real list \<Rightarrow> real \<Rightarrow> nat list \<times> nat list"
  find_harmonics_tolerance :: "real list \<Rightarrow> real \<Rightarrow> real \<Rightarrow> nat list \<times> nat list"

subsection \<open>Prewhitening loop\<close>

text \<open>
  The variables a BIC-gated \<^verbatim>\<open>while\<close> loop of the source carries from one iteration to
  the next: the linear model, the accepted sinusoids \<open>f_n, a_n, ph_n\<close>, the candidate
  sinusoids \<open>f_n_temp, a_n_temp, ph_n_temp\<close>, \<open>bic_prev\<close>, \<open>bic\<close>, the residual and the
  counter \<open>i\<close>.
\<close>

record fit_state =
  s_const :: "real list"
  s_slope :: "real list"
  s_f_n :: "real list"
  s_a_n :: "real list"
  s_ph_n :: "real list"
  s_f_n_temp :: "real list"
  s_a_n_temp :: "real list"
  s_ph_n_temp :: "real list"
  s_bic_prev :: bound
  s_bic :: real
  s_resid :: "real list"
  s_i :: nat

text \<open>
  \<^verbatim>\<open>refine_subset\<close>. One pass of \<^verbatim>\<open>for j in close_f\<close> re-extracts frequency \<open>j\<close> from
  the residual of the model without it, in a window of one frequency resolution around
  its old value, and writes the result back at position \<open>j\<close>.
\<close>

definition refine_subset_step ::
  "real list \<Rightarrow> real list \<Rightarrow> (nat \<times> nat) list \<Rightarrow> real \<Rightarrow> real list \<Rightarrow> real list \<Rightarrow> nat
     \<Rightarrow> real list \<times> real list \<times> real list \<Rightarrow> real list \<times> real list \<times> real list" where
  "refine_subset_step times' signal i_sectors freq_res const slope j =
     (\<lambda>(f_n_temp, a_n_temp, ph_n_temp).
       let model = linear_curve times' const slope i_sectors;
           model = vadd model (sum_sines times' (np_delete f_n_temp [j]) (np_delete a_n_temp [j])
                                 (np_delete ph_n_temp [j]));
           resid = vsub signal model;
           (f_j, a_j, ph_j) = extract_single times' resid (f_n_temp ! j - freq_res)
                                (f_n_temp ! j + freq_res)
       in (f_n_temp[j := f_j], a_n_temp[j := a_j], ph_n_temp[j := ph_j]))"

definition refine_subset_body ::
  "real list \<Rightarrow> real list \<Rightarrow> real list \<Rightarrow> nat list \<Rightarrow> (nat \<times> nat) list \<Rightarrow> int
     \<Rightarrow> fit_state \<Rightarrow> fit_state" where
  "refine_subset_body times' signal signal_err close_f i_sectors n_param s =
     (let freq_res = 1.5 / np_ptp times';
          (f_n_temp, a_n_temp, ph_n_temp) =
             fold (refine_subset_step times' signal i_sectors freq_res (s_const s) (s_slope s))
               close_f (s_f_n_temp s, s_a_n_temp s, s_ph_n_temp s);
          model = sum_sines times' f_n_temp a_n_temp ph_n_temp;
          (const, slope) = linear_pars times' (vsub signal model) i_sectors;
          model = vadd model (linear_curve times' const slope i_sectors);
          resid = vsub signal model;
          bic = calc_bic (vdiv resid signal_err) n_param
      in \<lparr>s_const = const, s_slope = slope,
          s_f_n = s_f_n_temp s, s_a_n = s_a_n_temp s, s_ph_n = s_ph_n_temp s,
          s_f_n_temp = f_n_temp, s_a_n_temp = a_n_temp, s_ph_n_temp = ph_n_temp,
          s_bic_prev = Fin (s_bic s), s_bic = bic, s_resid = resid, s_i = s_i s + 1\<rparr>)"

text \<open>\<^verbatim>\<open>while (np.round(bic_prev - bic, 2) > 0)\<close>.\<close>

partial_function (option) refine_subset_loop ::
  "real list \<Rightarrow> real list \<Rightarrow> real list \<Rightarrow> nat list \<Rightarrow> (nat \<times> nat) list \<Rightarrow> int
     \<Rightarrow> fit_state \<Rightarrow> fit_state option" where
  "refine_subset_loop times' signal signal_err close_f i_sectors n_param s =
     (if round_diff_gt (s_bic_prev s) (s_bic s) 0
      then refine_subset_loop times' signal signal_err close_f i_sectors n_param
             (refine_subset_body times' signal signal_err close_f i_sectors n_param s)
      else Some s)"

definition refine_subset ::
  "real list \<Rightarrow> real list \<Rightarrow> real list \<Rightarrow> nat list \<Rightarrow> real list \<Rightarrow> real list
     \<Rightarrow> real list \<Rightarrow> real list \<Rightarrow> real list \<Rightarrow> (nat \<times> nat) list
     \<Rightarrow> (real list \<times> real list \<times> real list \<times> real list \<times> real list) option" where
  "refine_subset times' signal signal_err close_f const slope f_n a_n ph_n i_sectors =
     (let n_sectors = int (length i_sectors);
          n_f = int (length f_n);
          model = linear_curve times' const slope i_sectors;
          model = vadd model (sum_sines times' f_n a_n ph_n);
          resid = vsub signal model;
          n_param = 2 * n_sectors + 3 * n_f;
          bic = calc_bic (vdiv resid signal_err) n_param
      in Option.bind
           (refine_subset_loop times' signal signal_err close_f i_sectors n_param
              \<lparr>s_const = const, s_slope = slope, s_f_n = f_n, s_a_n = a_n, s_ph_n = ph_n,
               s_f_n_temp = f_n, s_a_n_temp = a_n, s_ph_n_temp = ph_n,
               s_bic_prev = PInf, s_bic = bic, s_resid = resid, s_i = 0\<rparr>)
           (\<lambda>s. let resid = vsub signal (sum_sines times' (s_f_n s) (s_a_n s) (s_ph_n s));
                    (const, slope) = linear_pars times' resid i_sectors
                in Some (const, slope, s_f_n s, s_a_n s, s_ph_n s)))"

text \<open>
  \<^verbatim>\<open>extract_all\<close>. The body of the loop first accepts the candidate set of the state
  (\<^verbatim>\<open>f_n, a_n, ph_n = np.copy(f_n_temp), ...\<close>, \<^verbatim>\<open>bic_prev = bic\<close>), then extracts one more
  frequency from the residual, refines the frequencies close to it when this is not
  the first iteration, refits the linear trend and computes the BIC of the new
  candidate set with \<open>2 * n_sectors + 3 * len(f_n_temp)\<close> parameters.
\<close>

definition extract_all_body ::
  "af_module \<Rightarrow> real list \<Rightarrow> real list \<Rightarrow> real list \<Rightarrow> (nat \<times> nat) list
     \<Rightarrow> fit_state \<Rightarrow> fit_state option" where
  "extract_all_body af times' signal signal_err i_sectors s =
     (let freq_res = 1.5 / np_ptp times';
          n_sectors = int (length i_sectors);
          (f_i, a_i, ph_i) = extract_single times' (s_resid s) 0 0;
          f_n_temp = s_f_n_temp s @ [f_i];
          a_n_temp = s_a_n_temp s @ [a_i];
          ph_n_temp = s_ph_n_temp s @ [ph_i];
          close_f = f_within_rayleigh af (s_i s) f_n_temp freq_res
      in Option.bind
           (if s_i s > 0 \<and> length close_f > 1
            then refine_subset times' signal signal_err close_f (s_const s) (s_slope s)
                   f_n_temp a_n_temp ph_n_temp i_sectors
            else Some (s_const s, s_slope s, f_n_temp, a_n_temp, ph_n_temp))
           (\<lambda>(const, slope, f_n_temp, a_n_temp, ph_n_temp).
              let model = sum_sines times' f_n_temp a_n_temp ph_n_temp;
                  (const, slope) = linear_pars times' (vsub signal model) i_sectors;
                  model = vadd model (linear_curve times' const slope i_sectors);
                  resid = vsub signal model;
                  n_param = 2 * n_sectors + 3 * int (length f_n_temp);
                  bic = calc_bic (vdiv resid signal_err) n_param
              in Some \<lparr>s_const = const, s_slope = slope,
                   s_f_n = s_f_n_temp s, s_a_n = s_a_n_temp s, s_ph_n = s_ph_n_temp s,
                   s_f_n_temp = f_n_temp, s_a_n_temp = a_n_temp, s_ph_n_temp = ph_n_temp,
                   s_bic_prev = Fin (s_bic s), s_bic = bic, s_resid = resid,
                   s_i = s_i s + 1\<rparr>))"

text \<open>\<^verbatim>\<open>while (bic_prev - bic > 2)\<close>.\<close>

partial_function (option) extract_all_loop ::
  "af_module \<Rightarrow> real list \<Rightarrow> real list \<Rightarrow> real list \<Rightarrow> (nat \<times> nat) list
     \<Rightarrow> fit_state \<Rightarrow> fit_state option" where
  "extract_all_loop af times' signal signal_err i_sectors s =
     (if diff_gt (s_bic_prev s) (s_bic s) 2
      then Option.bind (extract_all_body af times' signal signal_err i_sectors s)
             (extract_all_loop af times' signal signal_err i_sectors)
      else Some s)"

text \<open>The state the loop of \<^verbatim>\<open>extract_all\<close> starts from (the shifted times are handed in).\<close>

definition extract_all_init ::
  "real list \<Rightarrow> real list \<Rightarrow> real list \<Rightarrow> (nat \<times> nat) list \<Rightarrow> fit_state" where
  "extract_all_init times' signal signal_err i_sectors =
     (let n_sectors = int (length i_sectors);
          (const, slope) = linear_pars times' signal i_sectors;
          resid = vsub signal (linear_curve times' const slope i_sectors);
          n_param = 2 * n_sectors;
          bic = calc_bic (vdiv resid signal_err) n_param
      in \<lparr>s_const = const, s_slope = slope, s_f_n = [], s_a_n = [], s_ph_n = [],
          s_f_n_temp = [], s_a_n_temp = [], s_ph_n_temp = [],
          s_bic_prev = PInf, s_bic = bic, s_resid = resid, s_i = 0\<rparr>)"

text \<open>
  \<^verbatim>\<open>times -= times[0]\<close> shifts the reference time. After the loop, the constant and the
  slope are redone without the frequencies of the last iteration, and the accepted
  sinusoids are returned.
\<close>

definition extract_all ::
  "af_module \<Rightarrow> real list \<Rightarrow> real list \<Rightarrow> real list \<Rightarrow> (nat \<times> nat) list
     \<Rightarrow> (real list \<times> real list \<times> real list \<times> real list \<times> real list) option" where
  "extract_all af times' signal signal_err i_sectors =
     (let times0 = map (\<lambda>t. t - hd times') times'
      in Option.bind
           (extract_all_loop af times0 signal signal_err i_sectors
              (extract_all_init times0 signal signal_err i_sectors))
           (\<lambda>s. let resid = vsub signal (sum_sines times0 (s_f_n s) (s_a_n s) (s_ph_n s));
                    (const, slope) = linear_pars times0 resid i_sectors
                in Some (const, slope, s_f_n s, s_a_n s, s_ph_n s)))"

subsection \<open>Harmonic-avoiding extractor and harmonic-aware prewhitening\<close>

text \<open>Boolean-mask indexing \<^verbatim>\<open>xs[mask]\<close>.\<close>

definition np_mask :: "'a list \<Rightarrow> bool list \<Rightarrow> 'a list" where
  "np_mask xs mask' = map fst (filter snd (zip xs mask'))"

text \<open>
  The mask of \<^verbatim>\<open>extract_single_harmonics\<close>: a frequency is kept when its remainder
  modulo \<open>1 / p_orb\<close> is more than half the avoidance zone away from both ends.
\<close>

definition harmonic_mask :: "real list \<Rightarrow> real \<Rightarrow> real list \<Rightarrow> bool list" where
  "harmonic_mask times' p_orb freqs =
     (let freq_res = 1.5 / np_ptp times';
          avoid = freq_res / (np_ptp times' / p_orb)
      in map (\<lambda>f. py_mod f (1 / p_orb) > avoid / 2 \<and> py_mod f (1 / p_orb) < (1 / p_orb) - avoid / 2)
           freqs)"

text \<open>
  \<^verbatim>\<open>extract_single_harmonics(times, signal, p_orb, f0, fn)\<close>: when the mask leaves no
  frequency of the coarse grid, the integers \<^verbatim>\<open>0, 0, 0\<close> are returned; otherwise the peak
  of the masked grid is refined twice, each time with a step a hundred times finer.
\<close>

definition extract_single_harmonics ::
  "real list \<Rightarrow> real list \<Rightarrow> real \<Rightarrow> real \<Rightarrow> real \<Rightarrow> real \<times> real \<times> real" where
  "extract_single_harmonics times' signal p_orb f0 fn =
     (let df = 0.1 / np_ptp times';
          (freqs, ampls) = scargle times' signal f0 fn df;
          mask' = harmonic_mask times' p_orb freqs;
          len_m = length (np_mask freqs mask')
      in if len_m = 0 then (0, 0, 0)
         else
           let p1 = np_argmax (np_mask ampls mask');
               f_left_1 = max (np_mask freqs mask' ! p1 - df) (0.01 / np_ptp times');
               f_right_1 = np_mask freqs mask' ! p1 + df;
               (f_refine_1, a_refine_1) = scargle times' signal f_left_1 f_right_1 (df / 100);
               p2 = np_argmax a_refine_1;
               f_left_2 = max (f_refine_1 ! p2 - df / 100) (0.01 / np_ptp times');
               f_right_2 = f_refine_1 ! p2 + df / 100;
               (f_refine_2, a_refine_2) = scargle times' signal f_left_2 f_right_2 (df / 10000);
               p3 = np_argmax a_refine_2;
               f_final = f_refine_2 ! p3;
               a_final = a_refine_2 ! p3;
               ph_final = scargle_phase_single times' signal f_final;
               ph_final = wrap_phase ph_final
           in (f_final, a_final, ph_final))"

text \<open>
  \<^verbatim>\<open>refine_subset_harmonics\<close>: as \<^verbatim>\<open>refine_subset\<close>, but a position that the pattern
  matcher classified as a harmonic keeps its frequency, and its amplitude and phase
  are the single-frequency values (the phase is not wrapped here).
\<close>

definition refine_subset_harmonics_step ::
  "real list \<Rightarrow> real list \<Rightarrow> (nat \<times> nat) list \<Rightarrow> real \<Rightarrow> nat list \<Rightarrow> real list \<Rightarrow> real list \<Rightarrow> nat
     \<Rightarrow> real list \<times> real list \<times> real list \<Rightarrow> real list \<times> real list \<times> real list" where
  "refine_subset_harmonics_step times' signal i_sectors freq_res harmonics const slope j =
     (\<lambda>(f_n_temp, a_n_temp, ph_n_temp).
       let model = linear_curve times' const slope i_sectors;
           model = vadd model (sum_sines times' (np_delete f_n_temp [j]) (np_delete a_n_temp [j])
                                 (np_delete ph_n_temp [j]));
           resid = vsub signal model;
           (f_j, a_j, ph_j) =
              (if j \<in> set harmonics
               then (f_n_temp ! j, scargle_ampl_single times' resid (f_n_temp ! j),
                     scargle_phase_single times' resid (f_n_temp ! j))
               else extract_single times' resid (f_n_temp ! j - freq_res) (f_n_temp ! j + freq_res))
       in (f_n_temp[j := f_j], a_n_temp[j := a_j], ph_n_temp[j := ph_j]))"

definition refine_subset_harmonics_body ::
  "real list \<Rightarrow> real list \<Rightarrow> real list \<Rightarrow> nat list \<Rightarrow> nat list \<Rightarrow> (nat \<times> nat) list \<Rightarrow> int
     \<Rightarrow> fit_state \<Rightarrow> fit_state" where
  "refine_subset_harmonics_body times' signal signal_err close_f harmonics i_sectors n_param s =
     (let freq_res = 1.5 / np_ptp times';
          (f_n_temp, a_n_temp, ph_n_temp) =
             fold (refine_subset_harmonics_step times' signal i_sectors freq_res harmonics
                     (s_const s) (s_slope s))
               close_f (s_f_n_temp s, s_a_n_temp s, s_ph_n_temp s);
          model = sum_sines times' f_n_temp a_n_temp ph_n_temp;
          (const, slope) = linear_pars times' (vsub signal model) i_sectors;
          model = vadd model (linear_curve times' const slope i_sectors);
          resid = vsub signal model;
          bic = calc_bic (vdiv resid signal_err) n_param
      in \<lparr>s_const = const, s_slope = slope,
          s_f_n = s_f_n_temp s, s_a_n = s_a_n_temp s, s_ph_n = s_ph_n_temp s,
          s_f_n_temp = f_n_temp, s_a_n_temp = a_n_temp, s_ph_n_temp = ph_n_temp,
          s_bic_prev = Fin (s_bic s), s_bic = bic, s_resid = resid, s_i = s_i s + 1\<rparr>)"

partial_function (option) refine_subset_harmonics_loop ::
  "real list \<Rightarrow> real list \<Rightarrow> real list \<Rightarrow> nat list \<Rightarrow> nat list \<Rightarrow> (nat \<times> nat) list \<Rightarrow> int
     \<Rightarrow> fit_state \<Rightarrow> fit_state option" where
  "refine_subset_harmonics_loop times' signal signal_err close_f harmonics i_sectors n_param s =
     (if round_diff_gt (s_bic_prev s) (s_bic s) 0
      then refine_subset_harmonics_loop times' signal signal_err close_f harmonics i_sectors n_param
             (refine_subset_harmonics_body times' signal signal_err close_f harmonics i_sectors
                n_param s)
      else Some s)"

definition refine_subset_harmonics ::
  "af_module \<Rightarrow> real list \<Rightarrow> real list \<Rightarrow> real list \<Rightarrow> nat list \<Rightarrow> real \<Rightarrow> real list \<Rightarrow> real list
     \<Rightarrow> real list \<Rightarrow> real list \<Rightarrow> real list \<Rightarrow> (nat \<times> nat) list
     \<Rightarrow> (real list \<times> real list \<times> real list \<times> real list \<times> real list) option" where
  "refine_subset_harmonics af times' signal signal_err close_f p_orb const slope f_n a_n ph_n
       i_sectors =
     (let n_sectors = int (length i_sectors);
          n_f = int (length f_n);
          (harmonics, harmonic_n) = find_harmonics_from_pattern af f_n p_orb;
          model = linear_curve times' const slope i_sectors;
          model = vadd model (sum_sines times' f_n a_n ph_n);
          resid = vsub signal model;
          n_param = 2 * n_sectors + 3 * n_f;
          bic = calc_bic (vdiv resid signal_err) n_param
      in Option.bind
           (refine_subset_harmonics_loop times' signal signal_err close_f harmonics i_sectors n_param
              \<lparr>s_const = const, s_slope = slope, s_f_n = f_n, s_a_n = a_n, s_ph_n = ph_n,
               s_f_n_temp = f_n, s_a_n_temp = a_n, s_ph_n_temp = ph_n,
               s_bic_prev = PInf, s_bic = bic, s_resid = resid, s_i = 0\<rparr>)
           (\<lambda>s. let resid = vsub signal (sum_sines times' (s_f_n s) (s_a_n s) (s_ph_n s));
                    (const, slope) = linear_pars times' resid i_sectors
                in Some (const, slope, s_f_n s, s_a_n s, s_ph_n s)))"

text \<open>
  \<^verbatim>\<open>extract_additional_frequencies\<close>: the loop of \<^verbatim>\<open>extract_all\<close>, started from an
  existing set, with the harmonic-avoiding extractor, the harmonic-aware refinement and
  a parameter count of one for the period, two for every harmonic and three for every
  other sinusoid. The number of harmonics is that of the input set.
\<close>

definition extract_additional_frequencies_body ::
  "af_module \<Rightarrow> real list \<Rightarrow> real list \<Rightarrow> real list \<Rightarrow> real \<Rightarrow> int \<Rightarrow> (nat \<times> nat) list
     \<Rightarrow> fit_state \<Rightarrow> fit_state option" where
  "extract_additional_frequencies_body af times' signal signal_err p_orb n_harmonics i_sectors s =
     (let freq_res = 1.5 / np_ptp times';
          n_sectors = int (length i_sectors);
          (f_i, a_i, ph_i) = extract_single_harmonics times' (s_resid s) p_orb 0 0;
          f_n_temp = s_f_n_temp s @ [f_i];
          a_n_temp = s_a_n_temp s @ [a_i];
          ph_n_temp = s_ph_n_temp s @ [ph_i];
          close_f = f_within_rayleigh af (s_i s) f_n_temp freq_res
      in Option.bind
           (if s_i s > 0 \<and> length close_f > 1
            then refine_subset_harmonics af times' signal signal_err close_f p_orb (s_const s)
                   (s_slope s) f_n_temp a_n_temp ph_n_temp i_sectors
            else Some (s_const s, s_slope s, f_n_temp, a_n_temp, ph_n_temp))
           (\<lambda>(const, slope, f_n_temp, a_n_temp, ph_n_temp).
              let model = sum_sines times' f_n_temp a_n_temp ph_n_temp;
                  (const, slope) = linear_pars times' (vsub signal model) i_sectors;
                  model = vadd model (linear_curve times' const slope i_sectors);
                  resid = vsub signal model;
                  n_param = 2 * n_sectors + 1 + 2 * n_harmonics
                              + 3 * (int (length f_n_temp) - n_harmonics);
                  bic = calc_bic (vdiv resid signal_err) n_param
              in Some \<lparr>s_const = const, s_slope = slope,
                   s_f_n = s_f_n_temp s, s_a_n = s_a_n_temp s, s_ph_n = s_ph_n_temp s,
                   s_f_n_temp = f_n_temp, s_a_n_temp = a_n_temp, s_ph_n_temp = ph_n_temp,
                   s_bic_prev = Fin (s_bic s), s_bic = bic, s_resid = resid,
                   s_i = s_i s + 1\<rparr>))"

partial_function (option) extract_additional_frequencies_loop ::
  "af_module \<Rightarrow> real list \<Rightarrow> real list \<Rightarrow> real list \<Rightarrow> real \<Rightarrow> int \<Rightarrow> (nat \<times> nat) list
     \<Rightarrow> fit_state \<Rightarrow> fit_state option" where
  "extract_additional_frequencies_loop af times' signal signal_err p_orb n_harmonics i_sectors s =
     (if diff_gt (s_bic_prev s) (s_bic s) 2
      then Option.bind
             (extract_additional_frequencies_body af times' signal signal_err p_orb n_harmonics
                i_sectors s)
             (extract_additional_frequencies_loop af times' signal signal_err p_orb n_harmonics
                i_sectors)
      else Some s)"

definition extract_additional_frequencies ::
  "af_module \<Rightarrow> real list \<Rightarrow> real list \<Rightarrow> real list \<Rightarrow> real \<Rightarrow> real list \<Rightarrow> real list
     \<Rightarrow> real list \<Rightarrow> real list \<Rightarrow> real list \<Rightarrow> (nat \<times> nat) list
     \<Rightarrow> (real list \<times> real list \<times> real list \<times> real list \<times> real list) option" where
  "extract_additional_frequencies af times' signal signal_err p_orb const slope f_n a_n ph_n
       i_sectors =
     (let times0 = map (\<lambda>t. t - hd times') times';
          (harmonics, harmonic_n) = find_harmonics_from_pattern af f_n p_orb;
          n_sectors = int (length i_sectors);
          n_harmonics = int (length harmonics);
          model = linear_curve times0 const slope i_sectors;
          model = vadd model (sum_sines times0 f_n a_n ph_n);
          resid = vsub signal model;
          n_param = 2 * n_sectors + 1 + 2 * n_harmonics + 3 * (int (length f_n) - n_harmonics);
          bic = calc_bic (vdiv resid signal_err) n_param
      in Option.bind
           (extract_additional_frequencies_loop af times0 signal signal_err p_orb n_harmonics
              i_sectors
              \<lparr>s_const = const, s_slope = slope, s_f_n = f_n, s_a_n = a_n, s_ph_n = ph_n,
               s_f_n_temp = f_n, s_a_n_temp = a_n, s_ph_n_temp = ph_n,
               s_bic_prev = PInf, s_bic = bic, s_resid = resid, s_i = 0\<rparr>)
           (\<lambda>s. let resid = vsub signal (sum_sines times0 (s_f_n s) (s_a_n s) (s_ph_n s));
                    (const, slope) = linear_pars times0 resid i_sectors
                in Some (const, slope, s_f_n s, s_a_n s, s_ph_n s)))"

subsection \<open>Harmonic locking and additional harmonics\<close>

text \<open>The exception \<^verbatim>\<open>ValueError('No harmonic frequencies found')\<close>.\<close>

datatype py_error = NoHarmonicsFound

text \<open>\<^verbatim>\<open>np.unique\<close>: the distinct values in ascending order.\<close>

definition np_unique :: "nat list \<Rightarrow> nat list" where
  "np_unique xs = sort (remdups xs)"

text \<open>
  One pass of the loop \<^verbatim>\<open>for n in np.unique(harmonic_n)\<close> of
  \<^verbatim>\<open>fix_harmonic_frequency\<close>: the frequencies matched to harmonic number \<open>n\<close> are
  removed, the residual of the remaining model is taken, and the exact frequency
  \<open>n / p_orb\<close> is appended with its single-frequency amplitude and its wrapped
  single-frequency phase; then the linear trend is refitted.
\<close>

definition fix_harmonic_step ::
  "af_module \<Rightarrow> real list \<Rightarrow> real list \<Rightarrow> real \<Rightarrow> (nat \<times> nat) list \<Rightarrow> real \<Rightarrow> nat
     \<Rightarrow> real list \<times> real list \<times> real list \<times> real list \<times> real list
     \<Rightarrow> real list \<times> real list \<times> real list \<times> real list \<times> real list" where
  "fix_harmonic_step af times' signal p_orb i_sectors f_tolerance n =
     (\<lambda>(const, slope, f_n, a_n, ph_n).
       let (harmonics, harmonic_n) = find_harmonics_tolerance af f_n p_orb f_tolerance;
           remove = map fst (filter (\<lambda>hn. snd hn = n) (zip harmonics harmonic_n));
           f_n = np_delete f_n remove;
           a_n = np_delete a_n remove;
           ph_n = np_delete ph_n remove;
           model = linear_curve times' const slope i_sectors;
           model = vadd model (sum_sines times' f_n a_n ph_n);
           resid = vsub signal model;
           f_n = f_n @ [real n / p_orb];
           a_n = a_n @ [scargle_ampl_single times' resid (real n / p_orb)];
           ph_n = ph_n @ [scargle_phase_single times' resid (real n / p_orb)];
           ph_n = ph_n[length ph_n - 1 := wrap_phase (ph_n ! (length ph_n - 1))];
           resid = vsub signal (sum_sines times' f_n a_n ph_n);
           (const, slope) = linear_pars times' resid i_sectors
       in (const, slope, f_n, a_n, ph_n))"

text \<open>
  One pass of the loop \<^verbatim>\<open>for i in non_harm\<close>: frequency \<open>i\<close> is extracted again in a
  window of one frequency resolution around its old value.
\<close>

definition fix_harmonic_reextract ::
  "real list \<Rightarrow> real list \<Rightarrow> (nat \<times> nat) list \<Rightarrow> real \<Rightarrow> nat
     \<Rightarrow> real list \<times> real list \<times> real list \<times> real list \<times> real list
     \<Rightarrow> real list \<times> real list \<times> real list \<times> real list \<times> real list" where
  "fix_harmonic_reextract times' signal i_sectors freq_res i =
     (\<lambda>(const, slope, f_n, a_n, ph_n).
       let model = linear_curve times' const slope i_sectors;
           model = vadd model (sum_sines times' (np_delete f_n [i]) (np_delete a_n [i])
                                 (np_delete ph_n [i]));
           fl = f_n ! i - freq_res;
           fr = f_n ! i + freq_res;
           (f_i, a_i, ph_i) = extract_single times' (vsub signal model) fl fr;
           f_n = f_n[i := f_i];
           a_n = a_n[i := a_i];
           ph_n = ph_n[i := ph_i];
           ph_n = ph_n[i := wrap_phase (ph_n ! i)];
           resid = vsub signal (sum_sines times' f_n a_n ph_n);
           (const, slope) = linear_pars times' resid i_sectors
       in (const, slope, f_n, a_n, ph_n))"

definition fix_harmonic_frequency ::
  "af_module \<Rightarrow> real list \<Rightarrow> real list \<Rightarrow> real \<Rightarrow> real list \<Rightarrow> real list \<Rightarrow> real list
     \<Rightarrow> real list \<Rightarrow> real list \<Rightarrow> (nat \<times> nat) list
     \<Rightarrow> py_error + (real list \<times> real list \<times> real list \<times> real list \<times> real list)" where
  "fix_harmonic_frequency af times' signal p_orb const slope f_n a_n ph_n i_sectors =
     (let freq_res = 1.5 / np_ptp times';
          f_tolerance = min (freq_res / 2) (1 / (2 * p_orb));
          (harmonics, harmonic_n) = find_harmonics_tolerance af f_n p_orb f_tolerance
      in if length harmonics = 0 then Inl NoHarmonicsFound
         else
           let (const, slope, f_n, a_n, ph_n) =
                 fold (fix_harmonic_step af times' signal p_orb i_sectors f_tolerance)
                   (np_unique harmonic_n) (const, slope, f_n, a_n, ph_n);
               (harmonics, harmonic_n) = find_harmonics_from_pattern af f_n p_orb;
               non_harm = np_delete [0..<length f_n] harmonics
           in Inr (fold (fix_harmonic_reextract times' signal i_sectors freq_res) non_harm
                     (const, slope, f_n, a_n, ph_n)))"

text \<open>
  \<^verbatim>\<open>extract_additional_harmonics\<close>. The candidates are the harmonic numbers below
  \<open>p_orb * f_max\<close> that are not present. The loop carries the linear model, the
  sinusoids, the residual, \<open>bic_prev\<close> and the number of accepted candidates.
\<close>

definition extract_additional_harmonics_step ::
  "real list \<Rightarrow> real list \<Rightarrow> real list \<Rightarrow> real \<Rightarrow> (nat \<times> nat) list \<Rightarrow> int \<Rightarrow> nat
     \<Rightarrow> real list \<times> real list \<times> real list \<times> real list \<times> real list \<times> real list \<times> real \<times> int
     \<Rightarrow> real list \<times> real list \<times> real list \<times> real list \<times> real list \<times> real list \<times> real \<times> int" where
  "extract_additional_harmonics_step times' signal signal_err p_orb i_sectors n_param_orig h_c =
     (\<lambda>(const, slope, f_n, a_n, ph_n, resid, bic_prev, n_accepted).
       let f_c = real h_c / p_orb;
           a_c = scargle_ampl_single times' resid f_c;
           ph_c = scargle_phase_single times' resid f_c;
           ph_c = wrap_phase ph_c;
           f_n_temp = f_n @ [f_c];
           a_n_temp = a_n @ [a_c];
           ph_n_temp = ph_n @ [ph_c];
           model = sum_sines times' f_n_temp a_n_temp ph_n_temp;
           (const, slope) = linear_pars times' (vsub signal model) i_sectors;
           model = linear_curve times' const slope i_sectors;
           model = vadd model (sum_sines times' f_n_temp a_n_temp ph_n_temp);
           resid = vsub signal model;
           n_param = n_param_orig + 2 * (n_accepted + 1);
           bic = calc_bic (vdiv resid signal_err) n_param
       in if np_round2 (bic_prev - bic) > 2
          then (const, slope, f_n_temp, a_n_temp, ph_n_temp, resid, bic, n_accepted + 1)
          else
            let resid = vsub signal (sum_sines times' f_n a_n ph_n);
                (const, slope) = linear_pars times' resid i_sectors;
                model = linear_curve times' const slope i_sectors;
                model = vadd model (sum_sines times' f_n a_n ph_n);
                resid = vsub signal model
            in (const, slope, f_n, a_n, ph_n, resid, bic_prev, n_accepted))"

definition extract_additional_harmonics ::
  "af_module \<Rightarrow> real list \<Rightarrow> real list \<Rightarrow> real list \<Rightarrow> real \<Rightarrow> real list \<Rightarrow> real list
     \<Rightarrow> real list \<Rightarrow> real list \<Rightarrow> real list \<Rightarrow> (nat \<times> nat) list
     \<Rightarrow> py_error + (real list \<times> real list \<times> real list \<times> real list \<times> real list)" where
  "extract_additional_harmonics af times' signal signal_err p_orb const slope f_n a_n ph_n
       i_sectors =
     (let f_max = 1 / (2 * np_min (vsub (tl times') (butlast times')));
          (harmonics, harmonic_n) = find_harmonics_from_pattern af f_n p_orb
      in if length harmonics = 0 then Inl NoHarmonicsFound
         else
           let h_candidate = [1..<nat \<lceil>p_orb * f_max\<rceil>];
               h_candidate = np_delete h_candidate (map (\<lambda>n. n - 1) harmonic_n);
               model = linear_curve times' const slope i_sectors;
               model = vadd model (sum_sines times' f_n a_n ph_n);
               resid = vsub signal model;
               n_param_orig = 3 * int (length f_n) + 2 - int (length harmonics) + 1;
               bic_prev = calc_bic (vdiv resid signal_err) n_param_orig;
               (const, slope, f_n, a_n, ph_n, resid, bic_prev, n_accepted) =
                 fold (extract_additional_harmonics_step times' signal signal_err p_orb i_sectors
                         n_param_orig)
                   h_candidate (const, slope, f_n, a_n, ph_n, resid, bic_prev, 0)
           in Inr (const, slope, f_n, a_n, ph_n))"

subsection \<open>Frequency reduction\<close>

text \<open>
  The single-removal pass. \<open>remove_single\<close> lists the positions marked for removal
  and \<open>bic_prev\<close> is the BIC of the last accepted removal. One step of
  \<^verbatim>\<open>for i in n_freq\<close> (or \<^verbatim>\<open>for i in non_harm\<close>) tests the model without the marked
  frequencies and without frequency \<open>i\<close>, with the linear trend refitted; the removal
  is accepted when \<^verbatim>\<open>np.round(bic_prev - bic, 2) > 0\<close>. The parameter count is a
  function of \<open>len(f_n_temp)\<close>: \<open>2 * n_sectors + 3 * len\<close> in \<^verbatim>\<open>reduce_frequencies\<close>
  and \<open>2 * n_sectors + 1 + 2 * n_harm + 3 * (len - n_harm)\<close> in
  \<^verbatim>\<open>reduce_frequencies_harmonics\<close>.
\<close>

definition single_removal_step ::
  "real list \<Rightarrow> real list \<Rightarrow> real list \<Rightarrow> (nat \<times> nat) list \<Rightarrow> real list \<Rightarrow> real list \<Rightarrow> real list
     \<Rightarrow> (nat \<Rightarrow> int) \<Rightarrow> nat \<Rightarrow> nat list \<times> real \<Rightarrow> nat list \<times> real" where
  "single_removal_step times' signal signal_err i_sectors f_n a_n ph_n n_param_of i =
     (\<lambda>(remove_single, bic_prev).
       if i \<in> set remove_single then (remove_single, bic_prev)
       else
         let remove = remove_single @ [i];
             f_n_temp = np_delete f_n remove;
             a_n_temp = np_delete a_n remove;
             ph_n_temp = np_delete ph_n remove;
             model = sum_sines times' f_n_temp a_n_temp ph_n_temp;
             (const, slope) = linear_pars times' (vsub signal model) i_sectors;
             model = vadd model (linear_curve times' const slope i_sectors);
             n_param = n_param_of (length f_n_temp);
             bic = calc_bic (vdiv (vsub signal model) signal_err) n_param
         in if np_round2 (bic_prev - bic) > 0 then (remove_single @ [i], bic)
            else (remove_single, bic_prev))"

text \<open>
  \<^verbatim>\<open>while (len(remove_single) > n_prev)\<close> with \<open>n_prev = -1\<close> at the start: a sweep over
  all positions is made, and repeated as long as the last sweep marked a position. A
  sweep marks only positions of the index list that are not marked yet, so the number
  of unmarked positions decreases.
\<close>

function single_removal_loop ::
  "real list \<Rightarrow> real list \<Rightarrow> real list \<Rightarrow> (nat \<times> nat) list \<Rightarrow> real list \<Rightarrow> real list \<Rightarrow> real list
     \<Rightarrow> (nat \<Rightarrow> int) \<Rightarrow> nat list \<Rightarrow> nat list \<times> real \<Rightarrow> nat list \<times> real" where
  "single_removal_loop times' signal signal_err i_sectors f_n a_n ph_n n_param_of idx st =
     (let st' = fold (single_removal_step times' signal signal_err i_sectors f_n a_n ph_n n_param_of)
                  idx st
      in if length (fst st') > length (fst st)
         then single_removal_loop times' signal signal_err i_sectors f_n a_n ph_n n_param_of idx st'
         else st')"
  by pat_completeness auto
termination
proof (relation "measure (\<lambda>(times', signal, signal_err, i_sectors, f_n, a_n, ph_n, n_param_of, idx, st).
                    card (set idx - set (fst st)))", goal_cases)
  case 1
  show ?case by simp
next
  case (2 times' signal signal_err i_sectors f_n a_n ph_n n_param_of idx st st')
  define step where "step = single_removal_step times' signal signal_err i_sectors f_n a_n ph_n n_param_of"
  have one: "\<And>i s. step i s = s \<or> (i \<notin> set (fst s) \<and> fst (step i s) = fst s @ [i])"
    by (auto simp: step_def single_removal_step_def Let_def split_beta)
  have key: "\<And>js s. set (fst (fold step js s)) \<subseteq> set (fst s) \<union> set js \<and>
                set (fst s) \<subseteq> set (fst (fold step js s)) \<and>
                length (fst s) \<le> length (fst (fold step js s)) \<and>
                (length (fst s) < length (fst (fold step js s)) \<longrightarrow>
                   set (fst s) \<noteq> set (fst (fold step js s)))"
  proof -
    fix js s
    show "set (fst (fold step js s)) \<subseteq> set (fst s) \<union> set js \<and>
                set (fst s) \<subseteq> set (fst (fold step js s)) \<and>
                length (fst s) \<le> length (fst (fold step js s)) \<and>
                (length (fst s) < length (fst (fold step js s)) \<longrightarrow>
                   set (fst s) \<noteq> set (fst (fold step js s)))"
    proof (induction js arbitrary: s)
      case Nil show ?case by simp
    next
      case (Cons j js)
      have IH: "set (fst (fold step js (step j s))) \<subseteq> set (fst (step j s)) \<union> set js"
        "set (fst (step j s)) \<subseteq> set (fst (fold step js (step j s)))"
        "length (fst (step j s)) \<le> length (fst (fold step js (step j s)))"
        "length (fst (step j s)) < length (fst (fold step js (step j s))) \<Longrightarrow>
           set (fst (step j s)) \<noteq> set (fst (fold step js (step j s)))"
        using Cons.IH[of "step j s"] by auto
      from one[of j s] show ?case
      proof
        assume "step j s = s"
        with IH show ?thesis by auto
      next
        assume a: "j \<notin> set (fst s) \<and> fst (step j s) = fst s @ [j]"
        then have "j \<in> set (fst (fold step js (step j s)))" using IH(2) by auto
        with a IH show ?thesis by auto
      qed
    qed
  qed
  from 2 have st': "st' = fold step idx st" and gr: "length (fst st) < length (fst st')"
    by (simp_all add: step_def)
  from key[of idx st] st' gr have sub: "set (fst st') \<subseteq> set (fst st) \<union> set idx"
    "set (fst st) \<subseteq> set (fst st')" "set (fst st) \<noteq> set (fst st')" by auto
  then obtain x where x: "x \<in> set (fst st')" "x \<notin> set (fst st)" by auto
  with sub have "x \<in> set idx" by auto
  with x sub have "set idx - set (fst st') \<subset> set idx - set (fst st)" by auto
  then have "card (set idx - set (fst st')) < card (set idx - set (fst st))"
    by (intro psubset_card_mono) auto
  then show ?case by simp
qed

declare single_removal_loop.simps [simp del]

text \<open>
  The sets of frequencies examined for replacement: every contiguous range of two or
  more positions of a chain,
  \<^verbatim>\<open>[g[np.arange(p1, p2 + 1)] for g in close_f_g for p1 in range(len(g) - 1)
   for p2 in range(p1 + 1, len(g))]\<close>.
\<close>

definition f_sets_of :: "nat list list \<Rightarrow> nat list list" where
  "f_sets_of close_f_g =
     concat (map (\<lambda>g. concat (map (\<lambda>p1. map (\<lambda>p2. map (\<lambda>k. g ! k) [p1..<p2 + 1])
                                              [p1 + 1..<length g])
                                 [0..<length g - 1]))
               close_f_g)"

text \<open>
  The variables of a cluster-merge pass: the accepted sets \<open>remove_sets\<close>, the sets
  not to be examined any more \<open>used_sets\<close>, the replacement sinusoids and \<open>bic_prev\<close>.
\<close>

record merge_state =
  m_remove_sets :: "nat list"
  m_used_sets :: "nat list"
  m_f_new :: "real list"
  m_a_new :: "real list"
  m_ph_new :: "real list"
  m_bic_prev :: real

text \<open>
  One step of \<^verbatim>\<open>for i, set_i in enumerate(f_sets)\<close>. The three cluster-merge passes
  of the source have the same body but for two places, which are parameters here:
  \<open>replacement\<close> gives the sinusoids that replace the set (one extracted frequency, or
  the harmonics of the set with amplitude and phase derived again), from the residual
  of the model without the set; \<open>n_param_of\<close> gives the parameter count from
  \<open>len(f_n_temp)\<close> and the number of replacement sinusoids. On acceptance every set that
  shares a position with \<open>set_i\<close> goes to \<open>used_sets\<close>.
\<close>

definition merge_step ::
  "real list \<Rightarrow> real list \<Rightarrow> real list \<Rightarrow> (nat \<times> nat) list \<Rightarrow> real list \<Rightarrow> real list \<Rightarrow> real list
     \<Rightarrow> nat list list \<Rightarrow> (real list \<Rightarrow> nat list \<Rightarrow> real list \<times> real list \<times> real list)
     \<Rightarrow> (nat \<Rightarrow> nat \<Rightarrow> int) \<Rightarrow> nat \<Rightarrow> merge_state \<Rightarrow> merge_state" where
  "merge_step times' signal signal_err i_sectors f_n a_n ph_n f_sets replacement n_param_of i st =
     (if i \<in> set (m_used_sets st) then st
      else
        let set_i = f_sets ! i;
            remove = concat (map (\<lambda>j. f_sets ! j) (m_remove_sets st)) @ set_i;
            f_n_temp = np_delete f_n remove @ m_f_new st;
            a_n_temp = np_delete a_n remove @ m_a_new st;
            ph_n_temp = np_delete ph_n remove @ m_ph_new st;
            model = sum_sines times' f_n_temp a_n_temp ph_n_temp;
            (const, slope) = linear_pars times' (vsub signal model) i_sectors;
            model = vadd model (linear_curve times' const slope i_sectors);
            (f_i, a_i, ph_i) = replacement (vsub signal model) set_i;
            model = sum_sines times' (f_n_temp @ f_i) (a_n_temp @ a_i) (ph_n_temp @ ph_i);
            (const, slope) = linear_pars times' (vsub signal model) i_sectors;
            model = vadd model (linear_curve times' const slope i_sectors);
            n_param = n_param_of (length f_n_temp) (length f_i);
            bic = calc_bic (vdiv (vsub signal model) signal_err) n_param
        in if np_round2 (m_bic_prev st - bic) > 0
           then
             let overlap = filter (\<lambda>k. \<exists>j\<in>set (f_sets ! k). j \<in> set set_i) [0..<length f_sets]
             in \<lparr>m_remove_sets = m_remove_sets st @ [i],
                 m_used_sets = np_unique (m_used_sets st @ overlap),
                 m_f_new = m_f_new st @ f_i, m_a_new = m_a_new st @ a_i,
                 m_ph_new = m_ph_new st @ ph_i, m_bic_prev = bic\<rparr>
           else st)"

text \<open>
  \<^verbatim>\<open>while (len(remove_sets) > n_prev)\<close>. The sets are built from the chains inside the
  loop function, filtered by \<open>keep\<close> (the third pass keeps the sets that contain a
  harmonic): every set has at least two positions, so an accepted set enters
  \<open>used_sets\<close> itself and the number of unused sets decreases.
\<close>

function merge_loop ::
  "real list \<Rightarrow> real list \<Rightarrow> real list \<Rightarrow> (nat \<times> nat) list \<Rightarrow> real list \<Rightarrow> real list \<Rightarrow> real list
     \<Rightarrow> nat list list \<Rightarrow> (nat list \<Rightarrow> bool)
     \<Rightarrow> (real list \<Rightarrow> nat list \<Rightarrow> real list \<times> real list \<times> real list)
     \<Rightarrow> (nat \<Rightarrow> nat \<Rightarrow> int) \<Rightarrow> merge_state \<Rightarrow> merge_state" where
  "merge_loop times' signal signal_err i_sectors f_n a_n ph_n close_f_g keep replacement n_param_of st =
     (let f_sets = filter keep (f_sets_of close_f_g);
          st' = fold (merge_step times' signal signal_err i_sectors f_n a_n ph_n f_sets replacement
                        n_param_of)
                  [0..<length f_sets] st
      in if length (m_remove_sets st') > length (m_remove_sets st)
         then merge_loop times' signal signal_err i_sectors f_n a_n ph_n close_f_g keep replacement
                n_param_of st'
         else st')"
  by pat_completeness auto
termination
proof (relation "measure (\<lambda>(times', signal, signal_err, i_sectors, f_n, a_n, ph_n, close_f_g, keep,
                    replacement, n_param_of, st).
                    card ({..<length (filter keep (f_sets_of close_f_g))} - set (m_used_sets st)))",
       goal_cases)
  case 1
  show ?case by simp
next
  case (2 times' signal signal_err i_sectors f_n a_n ph_n close_f_g keep replacement n_param_of st
          f_sets st')
  define step where "step = merge_step times' signal signal_err i_sectors f_n a_n ph_n f_sets
                        replacement n_param_of"
  have fs: "f_sets = filter keep (f_sets_of close_f_g)" using 2 by simp
  have nonempty: "\<And>i. i < length f_sets \<Longrightarrow> f_sets ! i \<noteq> []"
  proof -
    have "\<forall>x\<in>set (f_sets_of close_f_g). x \<noteq> []"
      by (auto simp: f_sets_of_def)
    then have "\<forall>x\<in>set f_sets. x \<noteq> []" by (simp add: fs)
    then show "\<And>i. i < length f_sets \<Longrightarrow> f_sets ! i \<noteq> []" by simp
  qed
  have one: "\<And>i s. i < length f_sets \<Longrightarrow>
      step i s = s \<or> (i \<notin> set (m_used_sets s) \<and> i \<in> set (m_used_sets (step i s)) \<and>
                       set (m_used_sets s) \<subseteq> set (m_used_sets (step i s)) \<and>
                       length (m_remove_sets (step i s)) = Suc (length (m_remove_sets s)))"
  proof -
    fix i s assume i: "i < length f_sets"
    from nonempty[OF i] obtain x where "x \<in> set (f_sets ! i)" by (cases "f_sets ! i") auto
    with i have "i \<in> set (filter (\<lambda>k. \<exists>j\<in>set (f_sets ! k). j \<in> set (f_sets ! i)) [0..<length f_sets])"
      by auto
    then show "step i s = s \<or> (i \<notin> set (m_used_sets s) \<and> i \<in> set (m_used_sets (step i s)) \<and>
                       set (m_used_sets s) \<subseteq> set (m_used_sets (step i s)) \<and>
                       length (m_remove_sets (step i s)) = Suc (length (m_remove_sets s)))"
      unfolding step_def merge_step_def Let_def split_beta np_unique_def
      by (auto)
  qed
  have key: "\<And>js s. set js \<subseteq> {..<length f_sets} \<Longrightarrow>
                set (m_used_sets s) \<subseteq> set (m_used_sets (fold step js s)) \<and>
                (length (m_remove_sets s) < length (m_remove_sets (fold step js s)) \<longrightarrow>
                   (\<exists>x<length f_sets. x \<in> set (m_used_sets (fold step js s)) \<and> x \<notin> set (m_used_sets s)))"
  proof -
    fix js s
    show "set js \<subseteq> {..<length f_sets} \<Longrightarrow>
                set (m_used_sets s) \<subseteq> set (m_used_sets (fold step js s)) \<and>
                (length (m_remove_sets s) < length (m_remove_sets (fold step js s)) \<longrightarrow>
                   (\<exists>x<length f_sets. x \<in> set (m_used_sets (fold step js s)) \<and> x \<notin> set (m_used_sets s)))"
    proof (induction js arbitrary: s)
      case Nil show ?case by simp
    next
      case (Cons j js)
      then have j: "j < length f_sets" and js: "set js \<subseteq> {..<length f_sets}" by auto
      note IH = Cons.IH[OF js, of "step j s"]
      from one[OF j, of s] show ?case
      proof
        assume "step j s = s"
        with IH show ?thesis by simp
      next
        assume a: "j \<notin> set (m_used_sets s) \<and> j \<in> set (m_used_sets (step j s)) \<and>
                       set (m_used_sets s) \<subseteq> set (m_used_sets (step j s)) \<and>
                       length (m_remove_sets (step j s)) = Suc (length (m_remove_sets s))"
        with IH have "j \<in> set (m_used_sets (fold step js (step j s)))" by auto
        with a j IH show ?thesis by auto
      qed
    qed
  qed
  from 2 have st': "st' = fold step [0..<length f_sets] st"
    and gr: "length (m_remove_sets st) < length (m_remove_sets st')"
    by (simp_all add: step_def)
  have "set [0..<length f_sets] \<subseteq> {..<length f_sets}" by auto
  from key[OF this, of st] st' gr obtain x where
    x: "x < length f_sets" "x \<in> set (m_used_sets st')" "x \<notin> set (m_used_sets st)"
    and sub: "set (m_used_sets st) \<subseteq> set (m_used_sets st')" by blast
  then have "{..<length f_sets} - set (m_used_sets st') \<subset> {..<length f_sets} - set (m_used_sets st)"
    by auto
  then have "card ({..<length f_sets} - set (m_used_sets st'))
               < card ({..<length f_sets} - set (m_used_sets st))"
    by (intro psubset_card_mono) auto
  then show ?case by (simp add: fs)
qed

declare merge_loop.simps [simp del]

text \<open>
  The replacement of the non-harmonic passes: one frequency extracted between
  \<^verbatim>\<open>min(f_n[set_i]) - freq_res\<close> and \<^verbatim>\<open>max(f_n[set_i]) + freq_res\<close>. The replacement
  of the harmonic pass: the harmonics of the set at their own frequencies, with
  \<^verbatim>\<open>scargle_ampl\<close> and \<^verbatim>\<open>scargle_phase\<close> of the residual.
\<close>

definition replace_by_single ::
  "real list \<Rightarrow> real list \<Rightarrow> real \<Rightarrow> real list \<Rightarrow> nat list \<Rightarrow> real list \<times> real list \<times> real list" where
  "replace_by_single times' f_n freq_res resid set_i =
     (let edges0 = np_min (map (\<lambda>k. f_n ! k) set_i) - freq_res;
          edges1 = np_max (map (\<lambda>k. f_n ! k) set_i) + freq_res;
          (f_i, a_i, ph_i) = extract_single times' resid edges0 edges1
      in ([f_i], [a_i], [ph_i]))"


definition merge_init :: "real \<Rightarrow> merge_state" where
  "merge_init bic_prev =
     \<lparr>m_remove_sets = [], m_used_sets = [], m_f_new = [], m_a_new = [], m_ph_new = [],
      m_bic_prev = bic_prev\<rparr>"

text \<open>
  \<^verbatim>\<open>reduce_frequencies\<close>: the single-removal pass from the BIC of the input model, the
  cluster-merge pass, whose parameter count is \<^verbatim>\<open>2 * n_sectors + 3 * len(f_n_temp)\<close>,
  and the last refit of the linear trend.
\<close>

definition reduce_frequencies_single ::
  "real list \<Rightarrow> real list \<Rightarrow> real list \<Rightarrow> real list \<Rightarrow> real list \<Rightarrow> real list \<Rightarrow> real list
     \<Rightarrow> real list \<Rightarrow> (nat \<times> nat) list \<Rightarrow> nat list \<times> real" where
  "reduce_frequencies_single times' signal signal_err const slope f_n a_n ph_n i_sectors =
     (let n_freq = [0..<length f_n];
          n_sectors = int (length i_sectors);
          model = linear_curve times' const slope i_sectors;
          model = vadd model (sum_sines times' f_n a_n ph_n);
          n_param = 2 * n_sectors + 3 * int (length f_n);
          bic_init = calc_bic (vdiv (vsub signal model) signal_err) n_param
      in single_removal_loop times' signal signal_err i_sectors f_n a_n ph_n
           (\<lambda>len. 2 * n_sectors + 3 * int len) n_freq ([], bic_init))"

definition reduce_frequencies_merge ::
  "af_module \<Rightarrow> real list \<Rightarrow> real list \<Rightarrow> real list \<Rightarrow> real list \<Rightarrow> real list \<Rightarrow> real list
     \<Rightarrow> (nat \<times> nat) list \<Rightarrow> real \<Rightarrow> merge_state" where
  "reduce_frequencies_merge af times' signal signal_err f_n a_n ph_n i_sectors bic_prev =
     (let freq_res = 1.5 / np_ptp times';
          n_sectors = int (length i_sectors);
          close_f_g = chains_within_rayleigh af f_n freq_res
      in merge_loop times' signal signal_err i_sectors f_n a_n ph_n close_f_g (\<lambda>set_i. True)
           (replace_by_single times' f_n freq_res)
           (\<lambda>len k. 2 * n_sectors + 3 * int len)
           (merge_init bic_prev))"

definition reduce_frequencies ::
  "af_module \<Rightarrow> real list \<Rightarrow> real list \<Rightarrow> real list \<Rightarrow> real list \<Rightarrow> real list \<Rightarrow> real list
     \<Rightarrow> real list \<Rightarrow> real list \<Rightarrow> (nat \<times> nat) list
     \<Rightarrow> real list \<times> real list \<times> real list \<times> real list \<times> real list" where
  "reduce_frequencies af times' signal signal_err const slope f_n a_n ph_n i_sectors =
     (let freq_res = 1.5 / np_ptp times';
          (remove_single, bic_prev) =
             reduce_frequencies_single times' signal signal_err const slope f_n a_n ph_n i_sectors;
          f_n = np_delete f_n remove_single;
          a_n = np_delete a_n remove_single;
          ph_n = np_delete ph_n remove_single;
          f_sets = f_sets_of (chains_within_rayleigh af f_n freq_res);
          st = reduce_frequencies_merge af times' signal signal_err f_n a_n ph_n i_sectors bic_prev;
          removed = concat (map (\<lambda>i. f_sets ! i) (m_remove_sets st));
          f_n = np_delete f_n removed @ m_f_new st;
          a_n = np_delete a_n removed @ m_a_new st;
          ph_n = np_delete ph_n removed @ m_ph_new st;
          model = sum_sines times' f_n a_n ph_n;
          (const, slope) = linear_pars times' (vsub signal model) i_sectors
      in (const, slope, f_n, a_n, ph_n))"





subsection \<open>Reading the prewhitening loop\<close>

text \<open>
  The accepted and the candidate sinusoid set of a loop state, and the BIC of a model
  with two parameters for every segment and three for every sinusoid.
\<close>

definition accepted :: "fit_state \<Rightarrow> real list \<times> real list \<times> real list" where
  "accepted s = (s_f_n s, s_a_n s, s_ph_n s)"

definition candidate :: "fit_state \<Rightarrow> real list \<times> real list \<times> real list" where
  "candidate s = (s_f_n_temp s, s_a_n_temp s, s_ph_n_temp s)"

definition model_bic ::
  "real list \<Rightarrow> real list \<Rightarrow> real list \<Rightarrow> (nat \<times> nat) list
     \<Rightarrow> real list \<Rightarrow> real list \<Rightarrow> real list \<Rightarrow> real list \<Rightarrow> real list \<Rightarrow> real" where
  "model_bic times' signal signal_err i_sectors const slope f_n a_n ph_n =
     (let model = linear_curve times' const slope i_sectors;
          model = vadd model (sum_sines times' f_n a_n ph_n);
          resid = vsub signal model;
          n_param = 2 * int (length i_sectors) + 3 * int (length f_n)
      in calc_bic (vdiv resid signal_err) n_param)"

text \<open>
  A run of the loop of \<^verbatim>\<open>extract_all\<close>: a non-empty list of states in which every state
  but the last passes the test \<^verbatim>\<open>bic_prev - bic > 2\<close> and is taken to its successor by
  the body of the loop, and the last state fails the test.
\<close>

definition extract_all_trace ::
  "af_module \<Rightarrow> real list \<Rightarrow> real list \<Rightarrow> real list \<Rightarrow> (nat \<times> nat) list \<Rightarrow> fit_state list \<Rightarrow> bool" where
  "extract_all_trace af times' signal signal_err i_sectors tr =
     (tr \<noteq> [] \<and>
      (\<forall>k. Suc k < length tr \<longrightarrow>
         diff_gt (s_bic_prev (tr ! k)) (s_bic (tr ! k)) 2 \<and>
         extract_all_body af times' signal signal_err i_sectors (tr ! k) = Some (tr ! Suc k)) \<and>
      \<not> diff_gt (s_bic_prev (last tr)) (s_bic (last tr)) 2)"

text \<open>All six sinusoid arrays of a state have length \<open>n\<close>.\<close>

definition lengths_ok :: "nat \<Rightarrow> fit_state \<Rightarrow> bool" where
  "lengths_ok n s = (length (s_f_n s) = n \<and> length (s_a_n s) = n \<and> length (s_ph_n s) = n \<and>
     length (s_f_n_temp s) = n \<and> length (s_a_n_temp s) = n \<and> length (s_ph_n_temp s) = n)"

text \<open>
  The accumulator \<open>(ss, sc, ss2, sc2)\<close> of \<^verbatim>\<open>scargle\<close> has \<open>nf\<close> entries whose \<open>ss\<close> and
  \<open>sc\<close> are zero.
\<close>

definition zero_acc :: "nat \<Rightarrow> (real \<times> real \<times> real \<times> real) list \<Rightarrow> bool" where
  "zero_acc nf acc = (length acc = nf \<and> (\<forall>q\<in>set acc. fst q = 0 \<and> fst (snd q) = 0))"

text \<open>
  The range \<open>[-pi, pi)\<close> of the wrap, for an array of phases and for the two phase arrays
  of a loop state.
\<close>

definition phases_wrapped :: "real list \<Rightarrow> bool" where
  "phases_wrapped ph_n \<longleftrightarrow> (\<forall>ph\<in>set ph_n. - pi \<le> ph \<and> ph < pi)"

definition state_wrapped :: "fit_state \<Rightarrow> bool" where
  "state_wrapped s \<longleftrightarrow> phases_wrapped (s_ph_n s) \<and> phases_wrapped (s_ph_n_temp s)"







text \<open>
  The BIC of a set of sinusoids with the least-squares trend of \<^verbatim>\<open>linear_pars\<close>, the state
  in which the cluster-merge pass of \<^verbatim>\<open>reduce_frequencies\<close> ends, and what holds of the
  variables \<open>remove_single\<close> and \<open>bic_prev\<close> of its single-removal pass: \<open>bic_prev\<close> is the
  BIC of the input model as long as no position is marked, and afterwards the BIC of
  the model without the marked positions, below that of the input model.
\<close>

definition refit_bic ::
  "real list \<Rightarrow> real list \<Rightarrow> real list \<Rightarrow> (nat \<times> nat) list
     \<Rightarrow> real list \<Rightarrow> real list \<Rightarrow> real list \<Rightarrow> real" where
  "refit_bic times' signal signal_err i_sectors f_n a_n ph_n =
     (let (const, slope) = linear_pars times' (vsub signal (sum_sines times' f_n a_n ph_n)) i_sectors
      in model_bic times' signal signal_err i_sectors const slope f_n a_n ph_n)"

definition reduce_frequencies_sets ::
  "af_module \<Rightarrow> real list \<Rightarrow> real list \<Rightarrow> real list \<Rightarrow> real list \<Rightarrow> real list \<Rightarrow> real list
     \<Rightarrow> real list \<Rightarrow> real list \<Rightarrow> (nat \<times> nat) list \<Rightarrow> merge_state" where
  "reduce_frequencies_sets af times' signal signal_err const slope f_n a_n ph_n i_sectors =
     (let (remove_single, bic_prev) =
             reduce_frequencies_single times' signal signal_err const slope f_n a_n ph_n i_sectors
      in reduce_frequencies_merge af times' signal signal_err (np_delete f_n remove_single)
           (np_delete a_n remove_single) (np_delete ph_n remove_single) i_sectors bic_prev)"

definition removal_ok ::
  "real list \<Rightarrow> real list \<Rightarrow> real list \<Rightarrow> (nat \<times> nat) list \<Rightarrow> real list \<Rightarrow> real list \<Rightarrow> real list
     \<Rightarrow> real \<Rightarrow> nat list \<times> real \<Rightarrow> bool" where
  "removal_ok times' signal signal_err i_sectors f_n a_n ph_n bic_init st \<longleftrightarrow>
     (if fst st = [] then snd st = bic_init
      else snd st = refit_bic times' signal signal_err i_sectors (np_delete f_n (fst st))
                      (np_delete a_n (fst st)) (np_delete ph_n (fst st)) \<and>
           snd st < bic_init)"




subsection \<open>The functions of analysis\_functions, from the specification\<close>

text \<open>
  Modelled from the spec: the close-frequency selection \<^verbatim>\<open>af.f_within_rayleigh\<close>, whose
  code is missing. The specification (section 4.6) says that it determines which
  frequencies lie within one Rayleigh resolution of the newest candidate, chained: if A
  is close to B and B is close to C, all three are selected. The chain starts from
  position \<open>i\<close> and is closed under "within \<open>rayleigh\<close> of a member".
\<close>

definition f_within_rayleigh_spec :: "nat \<Rightarrow> real list \<Rightarrow> real \<Rightarrow> nat list" where
  "f_within_rayleigh_spec i f_n rayleigh =
     ((\<lambda>chain. filter (\<lambda>j. j \<in> set chain \<or> (\<exists>k\<in>set chain. \<bar>f_n ! j - f_n ! k\<bar> < rayleigh))
                 [0..<length f_n]) ^^ length f_n) [i]"

text \<open>
  Modelled from the spec: \<^verbatim>\<open>af.chains_within_rayleigh\<close>, whose code is missing. The
  specification (section 4.8) builds chains of frequencies within one Rayleigh
  resolution of their neighbours, along the sorted frequencies; a chain is a list of
  positions in order of frequency, and only chains of two or more can be merged.
\<close>

fun split_chains :: "real list \<Rightarrow> real \<Rightarrow> nat list \<Rightarrow> nat list list" where
  "split_chains f_n rayleigh [] = []"
| "split_chains f_n rayleigh [i] = [[i]]"
| "split_chains f_n rayleigh (i # j # js) =
     (let rest = split_chains f_n rayleigh (j # js)
      in if f_n ! j - f_n ! i < rayleigh then (i # hd rest) # tl rest else [i] # rest)"

definition chains_within_rayleigh_spec :: "real list \<Rightarrow> real \<Rightarrow> nat list list" where
  "chains_within_rayleigh_spec f_n rayleigh =
     filter (\<lambda>g. length g > 1)
       (split_chains f_n rayleigh (sort_key (\<lambda>i. f_n ! i) [0..<length f_n]))"

text \<open>
  Modelled from the spec: the harmonic pattern matcher, whose code is missing. The
  specification (section 4.5) returns the positions of \<open>f_n\<close> consistent with \<open>n / p_orb\<close>
  for positive integers \<open>n\<close> within the tolerance, with their \<open>n\<close>; if two frequencies
  are within tolerance of the same multiple, the closer one is kept (section 3: at most
  one frequency per harmonic number). \<open>harmonic_number\<close> is the nearest multiple of one
  frequency when it is within tolerance. The tolerance matcher of the harmonic-locking
  procedure keeps all frequencies matched to a harmonic number (section 4.7 removes "all
  current frequencies matched to that \<open>n\<close>"); the pattern matcher keeps the closest one,
  the earlier position at equal distance. After locking the tolerance is \<open>1e-9\<close>.
\<close>

definition harmonic_number :: "real \<Rightarrow> real \<Rightarrow> real \<Rightarrow> nat option" where
  "harmonic_number p_orb f_tol f =
     (let n = np_rint (f * p_orb)
      in if n \<ge> 1 \<and> \<bar>f - of_int n / p_orb\<bar> < f_tol then Some (nat n) else None)"

definition find_harmonics_tolerance_spec :: "real list \<Rightarrow> real \<Rightarrow> real \<Rightarrow> nat list \<times> nat list" where
  "find_harmonics_tolerance_spec f_n p_orb f_tol =
     (let harmonics = filter (\<lambda>i. harmonic_number p_orb f_tol (f_n ! i) \<noteq> None) [0..<length f_n]
      in (harmonics, map (\<lambda>i. the (harmonic_number p_orb f_tol (f_n ! i))) harmonics))"

definition closest_to_harmonic :: "real list \<Rightarrow> real \<Rightarrow> real \<Rightarrow> nat \<Rightarrow> bool" where
  "closest_to_harmonic f_n p_orb f_tol i =
     (case harmonic_number p_orb f_tol (f_n ! i) of
        None \<Rightarrow> False
      | Some n \<Rightarrow>
          list_all (\<lambda>j. harmonic_number p_orb f_tol (f_n ! j) = Some n \<longrightarrow>
                      (if j < i then \<bar>f_n ! i - real n / p_orb\<bar> < \<bar>f_n ! j - real n / p_orb\<bar>
                       else \<bar>f_n ! i - real n / p_orb\<bar> \<le> \<bar>f_n ! j - real n / p_orb\<bar>))
            [0..<length f_n])"

definition find_harmonics_from_pattern_spec :: "real list \<Rightarrow> real \<Rightarrow> real \<Rightarrow> nat list \<times> nat list" where
  "find_harmonics_from_pattern_spec f_n p_orb f_tol =
     (let harmonics = filter (closest_to_harmonic f_n p_orb f_tol) [0..<length f_n]
      in (harmonics, map (\<lambda>i. the (harmonic_number p_orb f_tol (f_n ! i))) harmonics))"

definition af_spec :: af_module where
  "af_spec = \<lparr>f_within_rayleigh = f_within_rayleigh_spec,
              chains_within_rayleigh = chains_within_rayleigh_spec,
              find_harmonics_from_pattern = (\<lambda>f_n p_orb. find_harmonics_from_pattern_spec f_n p_orb (1 / 10 ^ 9)),
              find_harmonics_tolerance = find_harmonics_tolerance_spec\<rparr>"

section \<open>Properties\<close>

subsection \<open>The BIC formula\<close>

lemma fold_sum_squares:
  "fold (\<lambda>r s. s + r ^ 2) xs (a::real) = a + (\<Sum>r\<leftarrow>xs. r ^ 2)"
  by (induction xs arbitrary: a) (simp_all add: algebra_simps)

text \<open>
  Claim C10. For a non-empty array of \<open>N\<close> residuals and parameter count \<open>k\<close>,
  \<open>calc_bic\<close> is \<open>N ln(2 pi S / N) + N + k ln N\<close>, where \<open>S\<close> is the sum of the squares of
  the residuals handed in.
\<close>

theorem calc_bic_formula:
  assumes "residuals \<noteq> []"
  shows "calc_bic residuals k =
    real (length residuals) * ln (2 * pi * (\<Sum>r\<leftarrow>residuals. r ^ 2) / real (length residuals))
      + real (length residuals) + of_int k * ln (real (length residuals))"
  using assms by (simp add: calc_bic_def Let_def fold_sum_squares)

theorem calc_bic_formula_witness:
  "[3, 4] \<noteq> ([] :: real list) \<and>
   calc_bic [3, 4] 5 = 2 * ln (2 * pi * 25 / 2) + 2 + 5 * ln 2"
  using calc_bic_formula [of "[3, 4]" 5] by simp


subsection \<open>Arithmetic on arrays\<close>

lemma vadd_commute: "vadd xs ys = vadd ys xs"
  unfolding vadd_def
proof (induction xs arbitrary: ys)
  case Nil show ?case by simp
next
  case (Cons x xs) show ?case by (cases ys) (simp_all add: Cons.IH)
qed

lemma vsub_zeros: "length xs \<le> n \<Longrightarrow> vsub xs (replicate n 0) = xs"
  unfolding vsub_def
proof (induction xs arbitrary: n)
  case Nil show ?case by simp
next
  case (Cons x xs)
  then obtain m where "n = Suc m" by (cases n) auto
  with Cons show ?case by simp
qed

lemma vadd_zeros: "length xs \<le> n \<Longrightarrow> vadd xs (replicate n 0) = xs"
  unfolding vadd_def
proof (induction xs arbitrary: n)
  case Nil show ?case by simp
next
  case (Cons x xs)
  then obtain m where "n = Suc m" by (cases n) auto
  with Cons show ?case by simp
qed

lemma length_linear_curve: "length (linear_curve t c sl sec) = length t"
proof -
  have "\<And>xs acc. length acc = length t \<Longrightarrow>
      length (fold (\<lambda>(co, sl, s) curve.
             map (\<lambda>i. if fst s \<le> i \<and> i < snd s then co + sl * t ! i else curve ! i)
               [0..<length t]) xs acc) = length t"
  proof -
    fix xs :: "(real \<times> real \<times> nat \<times> nat) list" and acc :: "real list"
    assume "length acc = length t"
    then show "length (fold (\<lambda>(co, sl, s) curve.
             map (\<lambda>i. if fst s \<le> i \<and> i < snd s then co + sl * t ! i else curve ! i)
               [0..<length t]) xs acc) = length t"
      by (induction xs arbitrary: acc) (auto simp: split_beta)
  qed
  then show ?thesis by (simp add: linear_curve_def)
qed

lemma sum_sines_Nil: "sum_sines times' [] [] [] = replicate (length times') 0"
  by (simp add: sum_sines_def)

lemma map_const_replicate: "(\<forall>x\<in>set xs. f x = c) \<Longrightarrow> map f xs = replicate (length xs) c"
  by (induction xs) auto

subsection \<open>The periodogram of a zero signal\<close>

lemma length_scargle_inner: "length (scargle_inner k rot st) = k"
proof (induction k arbitrary: st)
  case 0 show ?case by simp
next
  case (Suc k)
  obtain a b c d where rot: "rot = (a, b, c, d)" by (cases rot) auto
  obtain p q r s where st: "st = (p, q, r, s)" by (cases st) auto
  show ?case using Suc by (simp add: rot st)
qed

lemma scargle_inner_zero:
  "\<forall>q\<in>set (scargle_inner k rot (0, 0, a, b)). fst q = 0 \<and> fst (snd q) = 0"
proof (induction k arbitrary: a b)
  case 0 show ?case by simp
next
  case (Suc k)
  obtain sd cd ma mb where rot: "rot = (sd, cd, ma, mb)" by (cases rot) auto
  show ?case using Suc by (simp add: rot)
qed

lemma zero_acc_add4:
  assumes "zero_acc nf acc" "length row = nf" "\<forall>q\<in>set row. fst q = 0 \<and> fst (snd q) = 0"
  shows "zero_acc nf (map2 add4 acc row)"
proof -
  have "\<forall>q\<in>set (map2 add4 acc row). fst q = 0 \<and> fst (snd q) = 0"
  proof
    fix q assume "q \<in> set (map2 add4 acc row)"
    then obtain x y where xy: "(x, y) \<in> set (zip acc row)" "q = add4 x y" by auto
    then have "x \<in> set acc" "y \<in> set row" by (auto dest: set_zip_leftD set_zip_rightD)
    with assms have "fst x = 0 \<and> fst (snd x) = 0" "fst y = 0 \<and> fst (snd y) = 0"
      by (auto simp: zero_acc_def)
    with xy(2) show "fst q = 0 \<and> fst (snd q) = 0"
      by (cases x; cases y) (simp add: add4_def)
  qed
  with assms show ?thesis by (simp add: zero_acc_def)
qed

lemma zero_acc_fold:
  assumes "\<And>t acc. zero_acc nf acc \<Longrightarrow> zero_acc nf (g (t, 0) acc)"
    and "\<forall>p\<in>set xs. snd p = (0::real)" and "zero_acc nf acc"
  shows "zero_acc nf (fold g xs acc)"
  using assms(2,3)
proof (induction xs arbitrary: acc)
  case Nil then show ?case by simp
next
  case (Cons p xs)
  obtain t y where p: "p = (t, y)" by (cases p)
  with Cons.prems have "y = 0" by simp
  with Cons p assms(1) show ?case by simp
qed

lemma scargle_zero_signal:
  assumes "\<forall>y\<in>set signal. y = 0"
  shows "snd (scargle times' signal f0 fn df) =
     replicate (nat (py_int (((if fn = 0 then 1 / (2 * np_min (vsub (tl times') (butlast times'))) else fn)
                  - max f0 (0.01 / np_ptp times'))
                / (if df = 0 then 0.1 / np_ptp times' else df) + 0.001) + 1)) 0"
    (is "_ = replicate ?nf 0")
proof -
  define g where "g = (\<lambda>(t, y) acc.
                  let t_f0 = py_mod (t * (2 * pi) * max f0 (0.01 / np_ptp times')) (2 * pi);
                      sin_f0 = sin t_f0;
                      cos_f0 = cos t_f0;
                      mc_1_a = 2 * sin_f0 * cos_f0;
                      mc_1_b = cos_f0 * cos_f0 - sin_f0 * sin_f0;
                      t_df = py_mod (t * (2 * pi) * (if df = 0 then 0.1 / np_ptp times' else df)) (2 * pi);
                      sin_df = sin t_df;
                      cos_df = cos t_df;
                      mc_2_a = 2 * sin_df * cos_df;
                      mc_2_b = cos_df * cos_df - sin_df * sin_df
                  in map2 add4 acc
                       (scargle_inner ?nf (sin_df, cos_df, mc_2_a, mc_2_b)
                          (sin_f0 * y, cos_f0 * y, mc_1_a, mc_1_b)))"
  define acc where "acc = fold g (zip times' signal) (replicate ?nf (0, 0, 0, 0))"
  have step: "\<And>t a. zero_acc ?nf a \<Longrightarrow> zero_acc ?nf (g (t, 0) a)"
    unfolding g_def by (simp add: Let_def zero_acc_add4 length_scargle_inner scargle_inner_zero)
  have z0: "zero_acc ?nf (replicate ?nf (0, 0, 0, 0))" by (simp add: zero_acc_def)
  have sig: "\<forall>p\<in>set (zip times' signal). snd p = 0"
    using assms by (auto dest: set_zip_rightD)
  have Z: "zero_acc ?nf acc"
    unfolding acc_def by (rule zero_acc_fold[where g = g, OF step sig z0])
  define n where "n = real (length signal)"
  define h where "h = (\<lambda>(ss, sc, ss2, sc2).
                  (sc ^ 2 * (n - sc2) + ss ^ 2 * (n + sc2) - 2 * ss * sc * ss2)
                    / (n ^ 2 - sc2 ^ 2 - ss2 ^ 2))"
  have "\<forall>q\<in>set acc. h q = 0"
  proof
    fix q assume "q \<in> set acc"
    with Z have "fst q = 0 \<and> fst (snd q) = 0" by (simp add: zero_acc_def)
    then show "h q = 0" by (cases q) (simp add: h_def)
  qed
  then have s1: "map h acc = replicate ?nf 0"
    using Z map_const_replicate[of acc h 0] by (simp add: zero_acc_def)
  have fix0: "(case acc of [] \<Rightarrow> map h acc
                | (ss, sc, ss2, sc2) # _ \<Rightarrow>
                    if n ^ 2 - sc2 ^ 2 - ss2 ^ 2 = 0 then 0 # tl (map h acc) else map h acc)
              = replicate ?nf 0"
  proof (cases acc)
    case Nil
    with s1 show ?thesis by simp
  next
    case (Cons q qs)
    with Z have "?nf = Suc (length qs)" by (simp add: zero_acc_def)
    with s1 Cons show ?thesis by (cases q) (simp add: replicate_Suc[symmetric] del: replicate_Suc)
  qed
  have "snd (scargle times' signal f0 fn df) =
     map (\<lambda>s. sqrt (4 / n) * sqrt s)
       (case acc of [] \<Rightarrow> map h acc
                | (ss, sc, ss2, sc2) # _ \<Rightarrow>
                    if n ^ 2 - sc2 ^ 2 - ss2 ^ 2 = 0 then 0 # tl (map h acc) else map h acc)"
    unfolding scargle_def Let_def acc_def g_def h_def n_def by simp
  also have "\<dots> = replicate ?nf 0" unfolding fix0 by simp
  finally show ?thesis .
qed


lemma fst_scargle:
  "fst (scargle times' signal f0 fn df) =
     map (\<lambda>j. max f0 (0.01 / np_ptp times') + real j * (if df = 0 then 0.1 / np_ptp times' else df))
       [0..<nat (py_int (((if fn = 0 then 1 / (2 * np_min (vsub (tl times') (butlast times'))) else fn)
                  - max f0 (0.01 / np_ptp times'))
                / (if df = 0 then 0.1 / np_ptp times' else df) + 0.001) + 1)]"
  by (simp add: scargle_def Let_def)

lemma np_argmax_from_zero: "np_argmax_from (replicate n 0) i b 0 = b"
  by (induction n arbitrary: i) simp_all

lemma np_argmax_replicate_zero: "np_argmax (replicate n 0) = 0"
  by (cases n) (simp_all add: np_argmax_def np_argmax_from_zero)

lemma ptp_012: "np_ptp [0, 1, 2] = 2"
  by (simp add: np_ptp_def np_max_def np_min_def)

lemma py_int_ex1: "py_int (9901 / 1000) = 9"
  unfolding py_int_def by simp
lemma py_int_ex2: "py_int (100001 / 1000) = 100"
  unfolding py_int_def by simp

lemma extract_single_zero_example:
  "fst (snd (extract_single [0, 1, 2] [0, 0, 0] 0 0)) = 0"
proof -
  have z: "\<forall>y\<in>set [0, 0, 0::real]. y = 0" by simp
  have nmin: "np_min (vsub [1, 2] [0, 1]) = 1"
    by (simp add: np_min_def vsub_def)
  have a1: "snd (scargle [0, 1, 2] [0, 0, 0] 0 0 (1 / 20)) = replicate 10 0"
    unfolding scargle_zero_signal[OF z] by (simp add: ptp_012 nmin py_int_ex1)
  have f1: "fst (scargle [0, 1, 2] [0, 0, 0] 0 0 (1 / 20)) ! 0 = 1 / 200"
    unfolding fst_scargle by (simp add: ptp_012 nmin py_int_ex1 upt_conv_Cons)
  have a2: "snd (scargle [0, 1, 2] [0, 0, 0] (1 / 200) (11 / 200) (1 / 2000)) = replicate 101 0"
    unfolding scargle_zero_signal[OF z] by (simp add: ptp_012 py_int_ex2)
  show ?thesis
    unfolding extract_single_def Let_def split_beta ptp_012
    by (simp add: a1 f1 a2 np_argmax_replicate_zero)
qed

subsection \<open>Runs of the prewhitening loop\<close>

lemma extract_all_trace_single:
  "\<not> diff_gt (s_bic_prev s) (s_bic s) 2 \<Longrightarrow> extract_all_trace af t sig err sec [s]"
  by (simp add: extract_all_trace_def)

lemma extract_all_trace_Cons:
  assumes "extract_all_trace af t sig err sec tr"
    and "diff_gt (s_bic_prev s) (s_bic s) 2"
    and "extract_all_body af t sig err sec s = Some (hd tr)"
  shows "extract_all_trace af t sig err sec (s # tr)"
proof -
  from assms(1) have ne: "tr \<noteq> []" by (simp add: extract_all_trace_def)
  have "\<forall>k. Suc k < length (s # tr) \<longrightarrow>
         diff_gt (s_bic_prev ((s # tr) ! k)) (s_bic ((s # tr) ! k)) 2 \<and>
         extract_all_body af t sig err sec ((s # tr) ! k) = Some ((s # tr) ! Suc k)"
  proof (intro allI impI)
    fix k assume k: "Suc k < length (s # tr)"
    show "diff_gt (s_bic_prev ((s # tr) ! k)) (s_bic ((s # tr) ! k)) 2 \<and>
         extract_all_body af t sig err sec ((s # tr) ! k) = Some ((s # tr) ! Suc k)"
    proof (cases k)
      case 0
      with assms(2,3) ne show ?thesis by (simp add: hd_conv_nth)
    next
      case (Suc j)
      with k assms(1) show ?thesis by (simp add: extract_all_trace_def)
    qed
  qed
  with assms(1) ne show ?thesis by (simp add: extract_all_trace_def)
qed

lemma extract_all_loop_trace:
  assumes "extract_all_loop af t sig err sec s = Some r"
  shows "\<exists>tr. extract_all_trace af t sig err sec tr \<and> hd tr = s \<and> last tr = r"
proof (rule extract_all_loop.raw_induct
    [where P = "\<lambda>af t sig err sec s r.
       \<exists>tr. extract_all_trace af t sig err sec tr \<and> hd tr = s \<and> last tr = r", OF _ assms])
  fix loop af t sig err sec s r
  assume IH: "\<And>af t sig err sec s r. loop af t sig err sec s = Some r \<Longrightarrow>
      \<exists>tr. extract_all_trace af t sig err sec tr \<and> hd tr = s \<and> last tr = r"
    and eq: "(if diff_gt (s_bic_prev s) (s_bic s) 2
      then Option.bind (extract_all_body af t sig err sec s) (loop af t sig err sec)
      else Some s) = Some r"
  show "\<exists>tr. extract_all_trace af t sig err sec tr \<and> hd tr = s \<and> last tr = r"
  proof (cases "diff_gt (s_bic_prev s) (s_bic s) 2")
    case False
    with eq have "r = s" by simp
    with False show ?thesis
      by (intro exI[of _ "[s]"]) (simp add: extract_all_trace_single)
  next
    case True
    with eq obtain s' where b: "extract_all_body af t sig err sec s = Some s'"
      and l: "loop af t sig err sec s' = Some r"
      by (auto simp: bind_eq_Some_conv)
    from IH[OF l] obtain tr where tr: "extract_all_trace af t sig err sec tr" "hd tr = s'" "last tr = r"
      by blast
    from tr(1) have ne: "tr \<noteq> []" by (simp add: extract_all_trace_def)
    have "extract_all_trace af t sig err sec (s # tr)"
      using extract_all_trace_Cons[OF tr(1) True] b tr(2) by simp
    with ne tr show ?thesis by (intro exI[of _ "s # tr"]) simp
  qed
qed

lemma refine_subset_step_length:
  "length (fst (refine_subset_step t sig sec fr c sl j st)) = length (fst st) \<and>
   length (fst (snd (refine_subset_step t sig sec fr c sl j st))) = length (fst (snd st)) \<and>
   length (snd (snd (refine_subset_step t sig sec fr c sl j st))) = length (snd (snd st))"
  by (simp add: refine_subset_step_def Let_def split_beta)

lemma refine_subset_fold_length:
  "length (fst (fold (refine_subset_step t sig sec fr c sl) js st)) = length (fst st) \<and>
   length (fst (snd (fold (refine_subset_step t sig sec fr c sl) js st))) = length (fst (snd st)) \<and>
   length (snd (snd (fold (refine_subset_step t sig sec fr c sl) js st))) = length (snd (snd st))"
proof (induction js arbitrary: st)
  case Nil show ?case by simp
next
  case (Cons j js)
  show ?case using Cons.IH[of "refine_subset_step t sig sec fr c sl j st"]
      refine_subset_step_length[of t sig sec fr c sl j st] by simp
qed

lemma refine_subset_body_lengths:
  assumes "lengths_ok n s"
  shows "lengths_ok n (refine_subset_body t sig err close_f sec k s)"
  using assms
    refine_subset_fold_length[of t sig sec "1.5 / np_ptp t" "s_const s" "s_slope s" close_f
      "(s_f_n_temp s, s_a_n_temp s, s_ph_n_temp s)"]
  unfolding refine_subset_body_def Let_def split_beta lengths_ok_def
  by simp

lemma refine_subset_loop_lengths:
  assumes "refine_subset_loop t sig err close_f sec k s = Some r" and "lengths_ok n s"
  shows "lengths_ok n r"
proof -
  have "lengths_ok n s \<longrightarrow> lengths_ok n r"
  proof (rule refine_subset_loop.raw_induct
      [where P = "\<lambda>t sig err close_f sec k s r. lengths_ok n s \<longrightarrow> lengths_ok n r", OF _ assms(1)])
    fix loop t sig err close_f sec k s r
    assume IH: "\<And>t sig err close_f sec k s r. loop t sig err close_f sec k s = Some r \<Longrightarrow>
        lengths_ok n s \<longrightarrow> lengths_ok n r"
      and eq: "(if round_diff_gt (s_bic_prev s) (s_bic s) 0
        then loop t sig err close_f sec k (refine_subset_body t sig err close_f sec k s)
        else Some s) = Some r"
    show "lengths_ok n s \<longrightarrow> lengths_ok n r"
    proof (cases "round_diff_gt (s_bic_prev s) (s_bic s) 0")
      case True
      with eq have "loop t sig err close_f sec k (refine_subset_body t sig err close_f sec k s) = Some r"
        by simp
      from IH[OF this] show ?thesis by (simp add: refine_subset_body_lengths)
    next
      case False
      with eq show ?thesis by simp
    qed
  qed
  with assms(2) show ?thesis by simp
qed

lemma refine_subset_lengths:
  assumes "refine_subset t sig err close_f c sl f a ph sec = Some out"
    and "length a = length f" "length ph = length f"
  shows "length (fst (snd (snd out))) = length f \<and> length (fst (snd (snd (snd out)))) = length f \<and>
         length (snd (snd (snd (snd out)))) = length f"
proof -
  from assms(1) obtain r s0 where
    l: "refine_subset_loop t sig err close_f sec (2 * int (length sec) + 3 * int (length f)) s0 = Some r"
    and s0: "lengths_ok (length f) s0"
    and r: "fst (snd (snd out)) = s_f_n r" "fst (snd (snd (snd out))) = s_a_n r"
           "snd (snd (snd (snd out))) = s_ph_n r"
    unfolding refine_subset_def Let_def split_beta bind_eq_Some_conv
    using assms(2,3) by (auto simp: lengths_ok_def)
  have "lengths_ok (length f) r"
    by (rule refine_subset_loop_lengths[OF l s0])
  with r show ?thesis by (simp add: lengths_ok_def)
qed

lemma extract_all_body_commit:
  assumes "extract_all_body af t sig err sec s = Some s'"
  shows "accepted s' = candidate s \<and> s_bic_prev s' = Fin (s_bic s) \<and> s_i s' = Suc (s_i s) \<and>
     (s_const s', s_slope s') =
        linear_pars t (vsub sig (sum_sines t (s_f_n_temp s') (s_a_n_temp s') (s_ph_n_temp s'))) sec \<and>
     s_bic s' = model_bic t sig err sec (s_const s') (s_slope s')
                  (s_f_n_temp s') (s_a_n_temp s') (s_ph_n_temp s')"
  using assms
  unfolding extract_all_body_def Let_def split_beta bind_eq_Some_conv accepted_def candidate_def
      model_bic_def
  by (auto simp: vadd_commute)

lemma extract_all_body_lengths:
  assumes "extract_all_body af t sig err sec s = Some s'"
    and "length (s_a_n_temp s) = length (s_f_n_temp s)" "length (s_ph_n_temp s) = length (s_f_n_temp s)"
  shows "length (s_f_n_temp s') = Suc (length (s_f_n_temp s)) \<and>
         length (s_a_n_temp s') = Suc (length (s_f_n_temp s)) \<and>
         length (s_ph_n_temp s') = Suc (length (s_f_n_temp s))"
proof -
  define e where "e = extract_single t (s_resid s) 0 0"
  define f where "f = s_f_n_temp s @ [fst e]"
  define a where "a = s_a_n_temp s @ [fst (snd e)]"
  define ph where "ph = s_ph_n_temp s @ [snd (snd e)]"
  define close where "close = f_within_rayleigh af (s_i s) f (1.5 / np_ptp t)"
  from assms(1) obtain out where
    src: "(if s_i s > 0 \<and> length close > 1
           then refine_subset t sig err close (s_const s) (s_slope s) f a ph sec
           else Some (s_const s, s_slope s, f, a, ph)) = Some out"
    and s': "s_f_n_temp s' = fst (snd (snd out))" "s_a_n_temp s' = fst (snd (snd (snd out)))"
            "s_ph_n_temp s' = snd (snd (snd (snd out)))"
    unfolding extract_all_body_def Let_def split_beta bind_eq_Some_conv
      e_def[symmetric] f_def[symmetric] a_def[symmetric] ph_def[symmetric] close_def[symmetric]
    by auto
  have len: "length a = length f" "length ph = length f" "length f = Suc (length (s_f_n_temp s))"
    by (simp_all add: f_def a_def ph_def assms(2,3))
  show ?thesis
  proof (cases "s_i s > 0 \<and> length close > 1")
    case False
    with src have "out = (s_const s, s_slope s, f, a, ph)" by (auto split: if_splits)
    with s' len show ?thesis by simp
  next
    case True
    with src have "refine_subset t sig err close (s_const s) (s_slope s) f a ph sec = Some out"
      by (auto split: if_splits)
    from refine_subset_lengths[OF this len(1,2)] s' len(3) show ?thesis by simp
  qed
qed

lemma extract_all_init_simps:
  "s_bic_prev (extract_all_init t sig err sec) = PInf"
  "s_f_n_temp (extract_all_init t sig err sec) = []"
  "s_a_n_temp (extract_all_init t sig err sec) = []"
  "s_ph_n_temp (extract_all_init t sig err sec) = []"
  "(s_const (extract_all_init t sig err sec), s_slope (extract_all_init t sig err sec)) =
      linear_pars t sig sec"
  by (simp_all add: extract_all_init_def Let_def split_beta)

lemma extract_all_trace_lengths:
  assumes tr: "extract_all_trace af t sig err sec tr"
    and hd: "hd tr = extract_all_init t sig err sec"
    and k: "k < length tr"
  shows "length (s_f_n_temp (tr ! k)) = k \<and> length (s_a_n_temp (tr ! k)) = k \<and>
         length (s_ph_n_temp (tr ! k)) = k"
  using k
proof (induction k)
  case 0
  from tr have "tr \<noteq> []" by (simp add: extract_all_trace_def)
  then have "tr ! 0 = hd tr" by (simp add: hd_conv_nth)
  then show ?case by (simp add: hd extract_all_init_simps)
next
  case (Suc k)
  then have b: "extract_all_body af t sig err sec (tr ! k) = Some (tr ! Suc k)"
    using tr by (simp add: extract_all_trace_def)
  from Suc have ih: "length (s_f_n_temp (tr ! k)) = k" "length (s_a_n_temp (tr ! k)) = k"
         "length (s_ph_n_temp (tr ! k)) = k" by simp_all
  from extract_all_body_lengths[OF b] ih show ?case by simp
qed

lemma extract_all_run:
  assumes "extract_all af times' signal signal_err i_sectors = Some (const, slope, f_n, a_n, ph_n)"
    and "length signal = length times'"
  shows "\<exists>tr. extract_all_trace af (map (\<lambda>t. t - hd times') times') signal signal_err i_sectors tr \<and>
      hd tr = extract_all_init (map (\<lambda>t. t - hd times') times') signal signal_err i_sectors \<and>
      2 \<le> length tr \<and>
      (\<forall>k. Suc k < length tr \<longrightarrow>
         accepted (tr ! Suc k) = candidate (tr ! k) \<and> s_bic_prev (tr ! Suc k) = Fin (s_bic (tr ! k))) \<and>
      (f_n, a_n, ph_n) = accepted (last tr) \<and>
      (f_n, a_n, ph_n) = candidate (tr ! (length tr - 2)) \<and>
      (const, slope) = (s_const (tr ! (length tr - 2)), s_slope (tr ! (length tr - 2))) \<and>
      length (s_f_n_temp (last tr)) = Suc (length f_n)"
proof -
  define t where "t = map (\<lambda>t. t - hd times') times'"
  from assms(1) obtain r where
    l: "extract_all_loop af t signal signal_err i_sectors
          (extract_all_init t signal signal_err i_sectors) = Some r"
    and acc: "(f_n, a_n, ph_n) = accepted r"
    and lin: "(const, slope) =
        linear_pars t (vsub signal (sum_sines t (s_f_n r) (s_a_n r) (s_ph_n r))) i_sectors"
    unfolding extract_all_def Let_def split_beta bind_eq_Some_conv t_def[symmetric] accepted_def
    by auto
  from extract_all_loop_trace[OF l] obtain tr where
    tr: "extract_all_trace af t signal signal_err i_sectors tr"
    and hd: "hd tr = extract_all_init t signal signal_err i_sectors"
    and last: "last tr = r" by blast
  from tr have ne: "tr \<noteq> []" and stop: "\<not> diff_gt (s_bic_prev (last tr)) (s_bic (last tr)) 2"
    and steps: "\<And>k. Suc k < length tr \<Longrightarrow>
         diff_gt (s_bic_prev (tr ! k)) (s_bic (tr ! k)) 2 \<and>
         extract_all_body af t signal signal_err i_sectors (tr ! k) = Some (tr ! Suc k)"
    by (simp_all add: extract_all_trace_def)
  have len2: "2 \<le> length tr"
  proof (rule ccontr)
    assume "\<not> 2 \<le> length tr"
    with ne have "length tr = 1" by (cases tr) (auto simp: not_le)
    then have "last tr = hd tr" by (cases tr) auto
    with stop hd show False by (simp add: extract_all_init_simps)
  qed
  define m where "m = length tr - 2"
  from len2 have m: "Suc m < length tr" "Suc m = length tr - 1" by (simp_all add: m_def)
  from ne m have lastm: "last tr = tr ! Suc m" by (simp add: last_conv_nth)
  have commit: "\<And>k. Suc k < length tr \<Longrightarrow>
         accepted (tr ! Suc k) = candidate (tr ! k) \<and> s_bic_prev (tr ! Suc k) = Fin (s_bic (tr ! k))"
    using steps extract_all_body_commit by blast
  have acc_m: "(f_n, a_n, ph_n) = candidate (tr ! m)"
    using acc last lastm commit[OF m(1)] by simp
  have lens: "length (s_f_n_temp (tr ! Suc m)) = Suc m" "length (s_f_n_temp (tr ! m)) = m"
    using extract_all_trace_lengths[OF tr hd, of "Suc m"] extract_all_trace_lengths[OF tr hd, of m] m(1)
    by simp_all
  from acc_m have fn: "f_n = s_f_n_temp (tr ! m)" "a_n = s_a_n_temp (tr ! m)" "ph_n = s_ph_n_temp (tr ! m)"
    by (simp_all add: candidate_def)
  have lenf: "length (s_f_n_temp (last tr)) = Suc (length f_n)"
    using lens lastm fn by simp
  from acc last have r: "s_f_n r = f_n" "s_a_n r = a_n" "s_ph_n r = ph_n" by (simp_all add: accepted_def)
  have cs: "(const, slope) = (s_const (tr ! m), s_slope (tr ! m))"
  proof (cases m)
    case 0
    from ne have "tr ! 0 = hd tr" by (simp add: hd_conv_nth)
    with 0 hd have i: "tr ! m = extract_all_init t signal signal_err i_sectors" by simp
    from lens(2) 0 fn have "f_n = []" by simp
    moreover from acc_m i have "a_n = []" "ph_n = []" by (simp_all add: candidate_def extract_all_init_simps)
    ultimately have "(const, slope) = linear_pars t signal i_sectors"
      using lin r assms(2) by (simp add: sum_sines_Nil vsub_zeros t_def)
    with i show ?thesis by (simp add: extract_all_init_simps)
  next
    case (Suc j)
    with m have "Suc j < length tr" by simp
    from steps[OF this] have "extract_all_body af t signal signal_err i_sectors (tr ! j) = Some (tr ! m)"
      using Suc by simp
    from extract_all_body_commit[OF this] lin r fn show ?thesis by simp
  qed
  show ?thesis
    unfolding t_def[symmetric]
    apply (rule exI[of _ tr])
    using tr hd len2 commit acc last acc_m cs lenf unfolding m_def by blast
qed

lemma extract_all_init_bic:
  "s_bic (extract_all_init t sig err sec) =
     model_bic t sig err sec (fst (linear_pars t sig sec)) (snd (linear_pars t sig sec)) [] [] []"
  by (simp add: extract_all_init_def model_bic_def Let_def split_beta sum_sines_Nil vadd_zeros
      length_linear_curve)

lemma extract_all_trace_bic:
  assumes tr: "extract_all_trace af t sig err sec tr"
    and k: "Suc k < length tr"
  shows "s_bic (tr ! k) + 2 * real k \<le> s_bic (tr ! 0) \<and> (k > 0 \<longrightarrow> s_bic (tr ! k) + 2 * real k < s_bic (tr ! 0))"
  using k
proof (induction k)
  case 0 show ?case by simp
next
  case (Suc j)
  from tr have steps: "\<And>k. Suc k < length tr \<Longrightarrow>
         diff_gt (s_bic_prev (tr ! k)) (s_bic (tr ! k)) 2 \<and>
         extract_all_body af t sig err sec (tr ! k) = Some (tr ! Suc k)"
    by (simp add: extract_all_trace_def)
  from Suc.prems have j: "Suc j < length tr" by simp
  from steps[OF j] extract_all_body_commit have "s_bic_prev (tr ! Suc j) = Fin (s_bic (tr ! j))"
    by blast
  with steps[OF Suc.prems] have "s_bic (tr ! j) - s_bic (tr ! Suc j) > 2" by simp
  with Suc.IH[OF j] show ?case by simp
qed

lemma extract_all_result_bic:
  assumes "extract_all af times' signal signal_err i_sectors = Some (const, slope, f_n, a_n, ph_n)"
    and "length signal = length times'"
  defines "t \<equiv> map (\<lambda>t. t - hd times') times'"
  shows "model_bic t signal signal_err i_sectors const slope f_n a_n ph_n + 2 * real (length f_n)
           \<le> model_bic t signal signal_err i_sectors
                (fst (linear_pars t signal i_sectors)) (snd (linear_pars t signal i_sectors)) [] [] []"
    and "f_n \<noteq> [] \<Longrightarrow>
         model_bic t signal signal_err i_sectors const slope f_n a_n ph_n + 2 * real (length f_n)
           < model_bic t signal signal_err i_sectors
                (fst (linear_pars t signal i_sectors)) (snd (linear_pars t signal i_sectors)) [] [] []"
    and "f_n = [] \<Longrightarrow>
         model_bic t signal signal_err i_sectors const slope f_n a_n ph_n
           = model_bic t signal signal_err i_sectors
                (fst (linear_pars t signal i_sectors)) (snd (linear_pars t signal i_sectors)) [] [] []"
proof -
  from extract_all_run[OF assms(1,2)] obtain tr where
    tr: "extract_all_trace af t signal signal_err i_sectors tr"
    and hd: "hd tr = extract_all_init t signal signal_err i_sectors"
    and len2: "2 \<le> length tr"
    and cand: "(f_n, a_n, ph_n) = candidate (tr ! (length tr - 2))"
    and cs: "(const, slope) = (s_const (tr ! (length tr - 2)), s_slope (tr ! (length tr - 2)))"
    unfolding t_def by blast
  define m where "m = length tr - 2"
  from len2 have m: "Suc m < length tr" by (simp add: m_def)
  from tr have ne: "tr \<noteq> []" by (simp add: extract_all_trace_def)
  then have tr0: "tr ! 0 = extract_all_init t signal signal_err i_sectors"
    using hd by (simp add: hd_conv_nth)
  have lenm: "length f_n = m"
    using extract_all_trace_lengths[OF tr hd, of m] m cand by (simp add: m_def candidate_def)
  have bicm: "s_bic (tr ! m) = model_bic t signal signal_err i_sectors const slope f_n a_n ph_n"
  proof (cases m)
    case 0
    with lenm have "f_n = []" by simp
    moreover from cand 0 tr0 have "a_n = []" "ph_n = []"
      by (simp_all add: m_def candidate_def extract_all_init_simps)
    moreover from cs 0 tr0 have "(const, slope) = linear_pars t signal i_sectors"
      by (simp add: m_def extract_all_init_simps)
    then have "const = fst (linear_pars t signal i_sectors)" "slope = snd (linear_pars t signal i_sectors)"
      by (metis fst_conv, metis snd_conv)
    ultimately show ?thesis using 0 tr0 by (simp add: extract_all_init_bic)
  next
    case (Suc j)
    with m have "Suc j < length tr" by simp
    with tr have "extract_all_body af t signal signal_err i_sectors (tr ! j) = Some (tr ! m)"
      using Suc by (simp add: extract_all_trace_def)
    from extract_all_body_commit[OF this]
    have "s_bic (tr ! m) = model_bic t signal signal_err i_sectors (s_const (tr ! m)) (s_slope (tr ! m))
                  (s_f_n_temp (tr ! m)) (s_a_n_temp (tr ! m)) (s_ph_n_temp (tr ! m))" by blast
    moreover from cs have "const = s_const (tr ! m)" "slope = s_slope (tr ! m)"
      by (simp_all add: m_def)
    moreover from cand have "f_n = s_f_n_temp (tr ! m)" "a_n = s_a_n_temp (tr ! m)"
        "ph_n = s_ph_n_temp (tr ! m)" by (simp_all add: m_def candidate_def)
    ultimately show ?thesis by simp
  qed
  from extract_all_trace_bic[OF tr m] bicm lenm tr0
  show "model_bic t signal signal_err i_sectors const slope f_n a_n ph_n + 2 * real (length f_n)
           \<le> model_bic t signal signal_err i_sectors
                (fst (linear_pars t signal i_sectors)) (snd (linear_pars t signal i_sectors)) [] [] []"
    by (simp add: extract_all_init_bic)
  {
    assume "f_n \<noteq> []"
    with lenm have "m > 0" by auto
    with extract_all_trace_bic[OF tr m] bicm lenm tr0
    show "model_bic t signal signal_err i_sectors const slope f_n a_n ph_n + 2 * real (length f_n)
           < model_bic t signal signal_err i_sectors
                (fst (linear_pars t signal i_sectors)) (snd (linear_pars t signal i_sectors)) [] [] []"
      by (simp add: extract_all_init_bic)
  }
  {
    assume "f_n = []"
    with lenm have "m = 0" by simp
    with bicm tr0
    show "model_bic t signal signal_err i_sectors const slope f_n a_n ph_n
           = model_bic t signal signal_err i_sectors
                (fst (linear_pars t signal i_sectors)) (snd (linear_pars t signal i_sectors)) [] [] []"
      by (simp add: extract_all_init_bic)
  }
qed

subsection \<open>The prewhitening loop on a signal that is exactly linear\<close>

text \<open>
  Three samples on the line \<open>1 + t\<close>: the linear fit leaves a zero residual, the
  periodogram of the residual is zero everywhere, so the first candidate has amplitude
  zero and its BIC exceeds that of the linear model by the penalty \<open>3 ln 3\<close> of three
  more parameters. The loop stops after one iteration and \<^verbatim>\<open>extract_all\<close> returns no
  sinusoid. (\<open>ln 0\<close> is \<open>0\<close> in HOL and \<open>-inf\<close> in floating point; the comparison
  fails in both.)
\<close>

lemma sum_sines_zero_ampl: "sum_sines [0, 1, 2] [f] [0] [ph] = [0, 0, 0]"
  by (simp add: sum_sines_def)

lemma linear_pars_ex: "linear_pars [0, 1, 2] [1, 2, 3] [(0, 3)] = ([1], [1])"
  by (simp add: linear_pars_def slice_def np_mean_def Let_def)

lemma linear_curve_ex: "linear_curve [0, 1, 2] [1] [1] [(0, 3)] = [1, 2, 3]"
  by (simp add: linear_curve_def upt_conv_Cons)

lemma calc_bic_zero3: "calc_bic [0, 0, 0] k = 3 + of_int k * ln 3"
  by (simp add: calc_bic_def)

lemma ex_init:
  "extract_all_init [0, 1, 2] [1, 2, 3] [1, 1, 1] [(0, 3)] =
     \<lparr>s_const = [1], s_slope = [1], s_f_n = [], s_a_n = [], s_ph_n = [],
      s_f_n_temp = [], s_a_n_temp = [], s_ph_n_temp = [],
      s_bic_prev = PInf, s_bic = 3 + 2 * ln 3, s_resid = [0, 0, 0], s_i = 0\<rparr>"
  by (simp add: extract_all_init_def linear_pars_ex linear_curve_ex vsub_def vdiv_def calc_bic_zero3)

lemma ex_body:
  "\<exists>f ph. extract_all_body af [0, 1, 2] [1, 2, 3] [1, 1, 1] [(0, 3)]
     \<lparr>s_const = [1], s_slope = [1], s_f_n = [], s_a_n = [], s_ph_n = [],
      s_f_n_temp = [], s_a_n_temp = [], s_ph_n_temp = [],
      s_bic_prev = PInf, s_bic = 3 + 2 * ln 3, s_resid = [0, 0, 0], s_i = 0\<rparr> =
     Some \<lparr>s_const = [1], s_slope = [1], s_f_n = [], s_a_n = [], s_ph_n = [],
      s_f_n_temp = [f], s_a_n_temp = [0], s_ph_n_temp = [ph],
      s_bic_prev = Fin (3 + 2 * ln 3), s_bic = 3 + 5 * ln 3,
      s_resid = [0, 0, 0], s_i = Suc 0\<rparr>"
proof -
  obtain f a ph where e: "extract_single [0, 1, 2] [0, 0, 0] 0 0 = (f, a, ph)"
    by (cases "extract_single [0, 1, 2] [0, 0, 0] 0 0") auto
  with extract_single_zero_example have a: "a = 0" by simp
  show ?thesis
    apply (rule exI[of _ f], rule exI[of _ ph])
    apply (simp add: extract_all_body_def e a sum_sines_zero_ampl vsub_def vadd_def vdiv_def
        linear_pars_ex linear_curve_ex calc_bic_zero3 Let_def)
    done
qed

lemma extract_all_example:
  "extract_all af [0, 1, 2] [1, 2, 3] [1, 1, 1] [(0, 3)] = Some ([1], [1], [], [], [])"
proof -
  obtain f ph where b: "extract_all_body af [0, 1, 2] [1, 2, 3] [1, 1, 1] [(0, 3)]
     \<lparr>s_const = [1], s_slope = [1], s_f_n = [], s_a_n = [], s_ph_n = [],
      s_f_n_temp = [], s_a_n_temp = [], s_ph_n_temp = [],
      s_bic_prev = PInf, s_bic = 3 + 2 * ln 3, s_resid = [0, 0, 0], s_i = 0\<rparr> =
     Some \<lparr>s_const = [1], s_slope = [1], s_f_n = [], s_a_n = [], s_ph_n = [],
      s_f_n_temp = [f], s_a_n_temp = [0], s_ph_n_temp = [ph],
      s_bic_prev = Fin (3 + 2 * ln 3), s_bic = 3 + 5 * ln 3,
      s_resid = [0, 0, 0], s_i = Suc 0\<rparr>"
    using ex_body by blast
  have ln3: "ln (3::real) > 0" by simp
  have stop: "\<not> diff_gt (Fin (3 + 2 * ln 3)) (3 + 5 * ln (3::real)) 2"
    unfolding diff_gt.simps using ln3 by linarith
  have l1: "extract_all_loop af [0, 1, 2] [1, 2, 3] [1, 1, 1] [(0, 3)]
      \<lparr>s_const = [1], s_slope = [1], s_f_n = [], s_a_n = [], s_ph_n = [],
      s_f_n_temp = [f], s_a_n_temp = [0], s_ph_n_temp = [ph],
      s_bic_prev = Fin (3 + 2 * ln 3), s_bic = 3 + 5 * ln 3,
      s_resid = [0, 0, 0], s_i = Suc 0\<rparr> = Some \<lparr>s_const = [1], s_slope = [1], s_f_n = [], s_a_n = [], s_ph_n = [],
      s_f_n_temp = [f], s_a_n_temp = [0], s_ph_n_temp = [ph],
      s_bic_prev = Fin (3 + 2 * ln 3), s_bic = 3 + 5 * ln 3,
      s_resid = [0, 0, 0], s_i = Suc 0\<rparr>"
    by (subst extract_all_loop.simps) (use stop in simp)
  have l0: "extract_all_loop af [0, 1, 2] [1, 2, 3] [1, 1, 1] [(0, 3)]
      (extract_all_init [0, 1, 2] [1, 2, 3] [1, 1, 1] [(0, 3)]) = Some \<lparr>s_const = [1], s_slope = [1], s_f_n = [], s_a_n = [], s_ph_n = [],
      s_f_n_temp = [f], s_a_n_temp = [0], s_ph_n_temp = [ph],
      s_bic_prev = Fin (3 + 2 * ln 3), s_bic = 3 + 5 * ln 3,
      s_resid = [0, 0, 0], s_i = Suc 0\<rparr>"
    unfolding ex_init by (subst extract_all_loop.simps) (simp add: b l1)
  show ?thesis
    by (simp add: extract_all_def l0 sum_sines_def vsub_def linear_pars_ex)
qed

subsection \<open>The BIC gate of the prewhitening loop\<close>

text \<open>
  Claim C1. \<^verbatim>\<open>extract_all\<close> commits a candidate set only when the previous BIC minus the
  candidate's BIC exceeds 2, and when the test fails it stops and returns the set
  accepted before. Whenever \<^verbatim>\<open>extract_all\<close> returns \<open>(const, slope, f_n, a_n, ph_n)\<close>
  on arrays of equal length, the loop has gone through a run \<open>tr\<close> of at least two
  states, starting from the initial state: every state but the last passed the test
  \<^verbatim>\<open>bic_prev - bic > 2\<close> (part of \<open>extract_all_trace\<close>), and its candidate set became
  the accepted set of the next state, with its BIC as the next \<open>bic_prev\<close>; the last
  state failed the test, and the result is its accepted set, which is the candidate
  set, constant and slope of the state before it, one sinusoid shorter than the
  rejected candidate set.
\<close>

theorem extract_all_commit_gate:
  assumes "extract_all af times' signal signal_err i_sectors = Some (const, slope, f_n, a_n, ph_n)"
    and "length signal = length times'"
  shows "\<exists>tr. extract_all_trace af (map (\<lambda>t. t - hd times') times') signal signal_err i_sectors tr \<and>
      hd tr = extract_all_init (map (\<lambda>t. t - hd times') times') signal signal_err i_sectors \<and>
      2 \<le> length tr \<and>
      (\<forall>k. Suc k < length tr \<longrightarrow>
         accepted (tr ! Suc k) = candidate (tr ! k) \<and> s_bic_prev (tr ! Suc k) = Fin (s_bic (tr ! k))) \<and>
      (f_n, a_n, ph_n) = accepted (last tr) \<and>
      (f_n, a_n, ph_n) = candidate (tr ! (length tr - 2)) \<and>
      (const, slope) = (s_const (tr ! (length tr - 2)), s_slope (tr ! (length tr - 2))) \<and>
      length (s_f_n_temp (last tr)) = Suc (length f_n)"
  using extract_all_run [OF assms] .

theorem extract_all_commit_gate_witness:
  "extract_all af_spec [0, 1, 2] [1, 2, 3] [1, 1, 1] [(0, 3)] = Some ([1], [1], [], [], []) \<and>
   length [1, 2, 3 :: real] = length [0, 1, 2 :: real] \<and>
   (\<exists>tr. extract_all_trace af_spec (map (\<lambda>t. t - hd [0, 1, 2]) [0, 1, 2]) [1, 2, 3] [1, 1, 1] [(0, 3)] tr \<and>
      hd tr = extract_all_init (map (\<lambda>t. t - hd [0, 1, 2]) [0, 1, 2]) [1, 2, 3] [1, 1, 1] [(0, 3)] \<and>
      2 \<le> length tr \<and>
      ([], [], []) = accepted (last tr) \<and>
      ([], [], []) = candidate (tr ! (length tr - 2)) \<and>
      ([1], [1]) = (s_const (tr ! (length tr - 2)), s_slope (tr ! (length tr - 2))) \<and>
      length (s_f_n_temp (last tr)) = Suc (length ([] :: real list)))"
  using extract_all_commit_gate [OF extract_all_example [of af_spec]] extract_all_example [of af_spec]
  by fastforce

subsection \<open>The returned model against the model without sinusoids\<close>

text \<open>
  Claim C6, as stated, fails where \<^verbatim>\<open>extract_all\<close> accepts no frequency: on the linear
  signal above it returns the linear fit and no sinusoid, which is the sinusoid-free
  model itself, so the recomputed BIC is equal to that of the sinusoid-free model, not
  lower.
\<close>

theorem extract_all_bic_not_lower_counterexample:
  "extract_all af_spec [0, 1, 2] [1, 2, 3] [1, 1, 1] [(0, 3)] = Some ([1], [1], [], [], []) \<and>
   model_bic [0, 1, 2] [1, 2, 3] [1, 1, 1] [(0, 3)] [1] [1] [] [] [] = 3 + 2 * ln 3 \<and>
   model_bic [0, 1, 2] [1, 2, 3] [1, 1, 1] [(0, 3)]
     (fst (linear_pars [0, 1, 2] [1, 2, 3] [(0, 3)])) (snd (linear_pars [0, 1, 2] [1, 2, 3] [(0, 3)]))
     [] [] [] = 3 + 2 * ln 3 \<and>
   \<not> (model_bic [0, 1, 2] [1, 2, 3] [1, 1, 1] [(0, 3)] [1] [1] [] [] []
        < model_bic [0, 1, 2] [1, 2, 3] [1, 1, 1] [(0, 3)]
            (fst (linear_pars [0, 1, 2] [1, 2, 3] [(0, 3)]))
            (snd (linear_pars [0, 1, 2] [1, 2, 3] [(0, 3)])) [] [] [])"
  by (simp add: extract_all_example linear_pars_ex model_bic_def linear_curve_ex sum_sines_Nil
      vadd_def vsub_def vdiv_def calc_bic_zero3)

text \<open>
  Claim C6, amended. On arrays of equal length, the BIC of the model that
  \<^verbatim>\<open>extract_all\<close> returns, recomputed on the shifted times with two parameters for
  every segment and three for every sinusoid, is not higher than the BIC of the model
  of the linear fit alone: it is lower by more than 2 for every returned sinusoid, so
  strictly lower when at least one frequency is returned, and equal when none is.
\<close>

theorem extract_all_bic_not_worse:
  assumes "extract_all af times' signal signal_err i_sectors = Some (const, slope, f_n, a_n, ph_n)"
    and "length signal = length times'"
  shows "model_bic (map (\<lambda>t. t - hd times') times') signal signal_err i_sectors const slope f_n a_n ph_n
             + 2 * real (length f_n)
           \<le> model_bic (map (\<lambda>t. t - hd times') times') signal signal_err i_sectors
                (fst (linear_pars (map (\<lambda>t. t - hd times') times') signal i_sectors))
                (snd (linear_pars (map (\<lambda>t. t - hd times') times') signal i_sectors)) [] [] [] \<and>
         (f_n \<noteq> [] \<longrightarrow>
           model_bic (map (\<lambda>t. t - hd times') times') signal signal_err i_sectors const slope f_n a_n ph_n
           < model_bic (map (\<lambda>t. t - hd times') times') signal signal_err i_sectors
                (fst (linear_pars (map (\<lambda>t. t - hd times') times') signal i_sectors))
                (snd (linear_pars (map (\<lambda>t. t - hd times') times') signal i_sectors)) [] [] []) \<and>
         (f_n = [] \<longrightarrow>
           model_bic (map (\<lambda>t. t - hd times') times') signal signal_err i_sectors const slope f_n a_n ph_n
           = model_bic (map (\<lambda>t. t - hd times') times') signal signal_err i_sectors
                (fst (linear_pars (map (\<lambda>t. t - hd times') times') signal i_sectors))
                (snd (linear_pars (map (\<lambda>t. t - hd times') times') signal i_sectors)) [] [] [])"
proof -
  have "f_n \<noteq> [] \<Longrightarrow>
      model_bic (map (\<lambda>t. t - hd times') times') signal signal_err i_sectors const slope f_n a_n ph_n
           < model_bic (map (\<lambda>t. t - hd times') times') signal signal_err i_sectors
                (fst (linear_pars (map (\<lambda>t. t - hd times') times') signal i_sectors))
                (snd (linear_pars (map (\<lambda>t. t - hd times') times') signal i_sectors)) [] [] []"
    using extract_all_result_bic(2)[OF assms] by simp
  then show ?thesis
    using extract_all_result_bic(1)[OF assms] extract_all_result_bic(3)[OF assms] by blast
qed

theorem extract_all_bic_not_worse_witness:
  "extract_all af_spec [0, 1, 2] [1, 2, 3] [1, 1, 1] [(0, 3)] = Some ([1], [1], [], [], []) \<and>
   length [1, 2, 3 :: real] = length [0, 1, 2 :: real] \<and>
   model_bic [0, 1, 2] [1, 2, 3] [1, 1, 1] [(0, 3)] [1] [1] [] [] [] + 2 * real (length ([] :: real list))
     \<le> model_bic [0, 1, 2] [1, 2, 3] [1, 1, 1] [(0, 3)]
          (fst (linear_pars [0, 1, 2] [1, 2, 3] [(0, 3)]))
          (snd (linear_pars [0, 1, 2] [1, 2, 3] [(0, 3)])) [] [] [] \<and>
   model_bic [0, 1, 2] [1, 2, 3] [1, 1, 1] [(0, 3)] [1] [1] [] [] []
     = model_bic [0, 1, 2] [1, 2, 3] [1, 1, 1] [(0, 3)]
          (fst (linear_pars [0, 1, 2] [1, 2, 3] [(0, 3)]))
          (snd (linear_pars [0, 1, 2] [1, 2, 3] [(0, 3)])) [] [] []"
  using extract_all_bic_not_worse [OF extract_all_example [of af_spec]] extract_all_example [of af_spec]
  by simp

subsection \<open>The harmonic guard\<close>




lemma tol_spec_one: "tol > 0 \<Longrightarrow> find_harmonics_tolerance af_spec [1] 1 tol = ([0], [1])"
  by (simp add: af_spec_def find_harmonics_tolerance_spec_def harmonic_number_def np_rint_def)

lemma pat_spec_one: "find_harmonics_from_pattern af_spec [1] 1 = ([0], [1])"
  by (simp add: af_spec_def find_harmonics_from_pattern_spec_def closest_to_harmonic_def
      harmonic_number_def np_rint_def)



subsection \<open>Rounded and unrounded BIC tests\<close>

lemma np_rint_gt_even:
  assumes "even k"
  shows "np_rint x > k \<longleftrightarrow> x > of_int k + 1 / 2"
proof
  assume gt: "np_rint x > k"
  show "x > of_int k + 1 / 2"
  proof (rule ccontr)
    assume "\<not> x > of_int k + 1 / 2"
    then have le: "x \<le> of_int k + 1 / 2" by simp
    then have "x < of_int k + 1" by simp
    then have fl: "\<lfloor>x\<rfloor> \<le> k" by linarith
    show False
    proof (cases "\<lfloor>x\<rfloor> = k")
      case True
      with le have "x - of_int \<lfloor>x\<rfloor> \<le> 1 / 2" by simp
      with True assms have "np_rint x = k"
        by (auto simp: np_rint_def Let_def)
      with gt show False by simp
    next
      case False
      with fl have "\<lfloor>x\<rfloor> + 1 \<le> k" by simp
      moreover have "np_rint x \<le> \<lfloor>x\<rfloor> + 1" by (simp add: np_rint_def Let_def)
      ultimately show False using gt by simp
    qed
  qed
next
  assume gt: "x > of_int k + 1 / 2"
  then have "of_int k \<le> x" by simp
  then have fl: "k \<le> \<lfloor>x\<rfloor>" by (simp add: le_floor_iff)
  show "np_rint x > k"
  proof (cases "\<lfloor>x\<rfloor> = k")
    case True
    with gt have "x - of_int \<lfloor>x\<rfloor> > 1 / 2" by simp
    with True show ?thesis by (simp add: np_rint_def Let_def)
  next
    case False
    with fl have "k < \<lfloor>x\<rfloor>" by simp
    moreover have "\<lfloor>x\<rfloor> \<le> np_rint x" by (simp add: np_rint_def Let_def)
    ultimately show ?thesis by simp
  qed
qed

lemma np_round2_gt_0: "np_round2 d > 0 \<longleftrightarrow> d > 1 / 200"
proof -
  have "np_round2 d > 0 \<longleftrightarrow> np_rint (d * 100) > 0"
    by (simp add: np_round2_def)
  also have "\<dots> \<longleftrightarrow> d * 100 > of_int 0 + 1 / 2"
    by (rule np_rint_gt_even) simp
  also have "\<dots> \<longleftrightarrow> d > 1 / 200" by auto
  finally show ?thesis .
qed

lemma np_round2_gt_2: "np_round2 d > 2 \<longleftrightarrow> d > 401 / 200"
proof -
  have "np_round2 d > 2 \<longleftrightarrow> (of_int (np_rint (d * 100)) :: real) > of_int 200"
    by (simp add: np_round2_def)
  also have "\<dots> \<longleftrightarrow> np_rint (d * 100) > 200"
    by (simp only: of_int_less_iff)
  also have "\<dots> \<longleftrightarrow> d * 100 > of_int 200 + 1 / 2"
    by (rule np_rint_gt_even) simp
  also have "\<dots> \<longleftrightarrow> d > 401 / 200" by auto
  finally show ?thesis .
qed

lemma round_diff_gt_0: "round_diff_gt b x 0 = diff_gt b x (1 / 200)"
  by (cases b) (simp_all add: np_round2_gt_0)

lemma round_diff_gt_2: "round_diff_gt b x 2 = diff_gt b x (401 / 200)"
  by (cases b) (simp_all add: np_round2_gt_2)


text \<open>
  Claim C3, as stated, fails for the prewhitening loop: the test of \<^verbatim>\<open>extract_all\<close> is
  \<^verbatim>\<open>bic_prev - bic > 2\<close> without rounding. In a loop state with \<open>bic_prev = 2.003\<close> and
  \<open>bic = 0\<close> the loop goes on to its body and commits the candidate set, while the
  rounded difference \<open>round(2.003, 2) = 2.0\<close> does not exceed 2.
\<close>

theorem extract_all_unrounded_counterexample:
  "diff_gt (Fin (2003 / 1000)) 0 2 \<and>
   \<not> round_diff_gt (Fin (2003 / 1000)) 0 2 \<and>
   extract_all_loop af_spec [0, 1, 2] [1, 2, 3] [1, 1, 1] [(0, 3)]
     \<lparr>s_const = [1], s_slope = [1], s_f_n = [], s_a_n = [], s_ph_n = [],
      s_f_n_temp = [1 / 4], s_a_n_temp = [1], s_ph_n_temp = [0],
      s_bic_prev = Fin (2003 / 1000), s_bic = 0, s_resid = [0, 0, 0], s_i = 1\<rparr> =
   Option.bind
     (extract_all_body af_spec [0, 1, 2] [1, 2, 3] [1, 1, 1] [(0, 3)]
        \<lparr>s_const = [1], s_slope = [1], s_f_n = [], s_a_n = [], s_ph_n = [],
         s_f_n_temp = [1 / 4], s_a_n_temp = [1], s_ph_n_temp = [0],
         s_bic_prev = Fin (2003 / 1000), s_bic = 0, s_resid = [0, 0, 0], s_i = 1\<rparr>)
     (extract_all_loop af_spec [0, 1, 2] [1, 2, 3] [1, 1, 1] [(0, 3)])"
  by (subst extract_all_loop.simps) (simp add: np_round2_gt_2)

text \<open>
  Claim C3, amended. The tests \<^verbatim>\<open>np.round(bic_prev - bic, 2) > 0\<close> of
  \<^verbatim>\<open>refine_subset\<close>, \<^verbatim>\<open>refine_subset_harmonics\<close> and of the passes of
  \<^verbatim>\<open>reduce_frequencies\<close> and \<^verbatim>\<open>reduce_frequencies_harmonics\<close> accept exactly the
  differences above \<open>0.005\<close>; the test \<^verbatim>\<open>np.round(bic_prev - bic, 2) > 2\<close> of
  \<^verbatim>\<open>extract_additional_harmonics\<close> accepts exactly the differences above \<open>2.005\<close>; the
  prewhitening loops \<^verbatim>\<open>extract_all\<close> and \<^verbatim>\<open>extract_additional_frequencies\<close> compare the
  unrounded difference with 2.
\<close>

theorem bic_decisions:
  "extract_all_loop af times' signal signal_err i_sectors s =
     (if diff_gt (s_bic_prev s) (s_bic s) 2
      then Option.bind (extract_all_body af times' signal signal_err i_sectors s)
             (extract_all_loop af times' signal signal_err i_sectors)
      else Some s) \<and>
   extract_additional_frequencies_loop af times' signal signal_err p_orb n_harmonics i_sectors s =
     (if diff_gt (s_bic_prev s) (s_bic s) 2
      then Option.bind
             (extract_additional_frequencies_body af times' signal signal_err p_orb n_harmonics
                i_sectors s)
             (extract_additional_frequencies_loop af times' signal signal_err p_orb n_harmonics
                i_sectors)
      else Some s) \<and>
   refine_subset_loop times' signal signal_err close_f i_sectors n_param s =
     (if diff_gt (s_bic_prev s) (s_bic s) (1 / 200)
      then refine_subset_loop times' signal signal_err close_f i_sectors n_param
             (refine_subset_body times' signal signal_err close_f i_sectors n_param s)
      else Some s) \<and>
   refine_subset_harmonics_loop times' signal signal_err close_f harmonics i_sectors n_param s =
     (if diff_gt (s_bic_prev s) (s_bic s) (1 / 200)
      then refine_subset_harmonics_loop times' signal signal_err close_f harmonics i_sectors n_param
             (refine_subset_harmonics_body times' signal signal_err close_f harmonics i_sectors
                n_param s)
      else Some s) \<and>
   (\<exists>bic. single_removal_step times' signal signal_err i_sectors f_n a_n ph_n n_param_of i
             (remove_single, bic_prev) =
           (if i \<in> set remove_single then (remove_single, bic_prev)
            else if bic_prev - bic > 1 / 200 then (remove_single @ [i], bic)
            else (remove_single, bic_prev))) \<and>
   (\<exists>bic st'. merge_step times' signal signal_err i_sectors f_n a_n ph_n f_sets replacement
                 n_param_of2 i st =
               (if i \<in> set (m_used_sets st) then st
                else if m_bic_prev st - bic > 1 / 200 then st' else st) \<and>
               m_bic_prev st' = bic \<and> m_remove_sets st' = m_remove_sets st @ [i]) \<and>
   (\<exists>bic acc rej.
       extract_additional_harmonics_step times' signal signal_err p_orb i_sectors n_param_orig h_c
         (const, slope, f_n, a_n, ph_n, resid, bic_prev, n_accepted) =
       (if bic_prev - bic > 401 / 200 then acc else rej) \<and>
       fst (snd (snd acc)) = f_n @ [real h_c / p_orb] \<and>
       fst (snd (snd (snd (snd (snd (snd acc)))))) = bic \<and>
       fst (snd (snd rej)) = f_n \<and>
       fst (snd (snd (snd (snd (snd (snd rej)))))) = bic_prev)"
proof (intro conjI)
  show "extract_all_loop af times' signal signal_err i_sectors s =
     (if diff_gt (s_bic_prev s) (s_bic s) 2
      then Option.bind (extract_all_body af times' signal signal_err i_sectors s)
             (extract_all_loop af times' signal signal_err i_sectors)
      else Some s)"
    by (rule extract_all_loop.simps)
  show "extract_additional_frequencies_loop af times' signal signal_err p_orb n_harmonics i_sectors s =
     (if diff_gt (s_bic_prev s) (s_bic s) 2
      then Option.bind
             (extract_additional_frequencies_body af times' signal signal_err p_orb n_harmonics
                i_sectors s)
             (extract_additional_frequencies_loop af times' signal signal_err p_orb n_harmonics
                i_sectors)
      else Some s)"
    by (rule extract_additional_frequencies_loop.simps)
  show "refine_subset_loop times' signal signal_err close_f i_sectors n_param s =
     (if diff_gt (s_bic_prev s) (s_bic s) (1 / 200)
      then refine_subset_loop times' signal signal_err close_f i_sectors n_param
             (refine_subset_body times' signal signal_err close_f i_sectors n_param s)
      else Some s)"
    by (subst refine_subset_loop.simps) (simp only: round_diff_gt_0)
  show "refine_subset_harmonics_loop times' signal signal_err close_f harmonics i_sectors n_param s =
     (if diff_gt (s_bic_prev s) (s_bic s) (1 / 200)
      then refine_subset_harmonics_loop times' signal signal_err close_f harmonics i_sectors n_param
             (refine_subset_harmonics_body times' signal signal_err close_f harmonics i_sectors
                n_param s)
      else Some s)"
    by (subst refine_subset_harmonics_loop.simps) (simp only: round_diff_gt_0)
  show "\<exists>bic. single_removal_step times' signal signal_err i_sectors f_n a_n ph_n n_param_of i
             (remove_single, bic_prev) =
           (if i \<in> set remove_single then (remove_single, bic_prev)
            else if bic_prev - bic > 1 / 200 then (remove_single @ [i], bic)
            else (remove_single, bic_prev))"
    unfolding single_removal_step_def Let_def split_beta np_round2_gt_0 prod.case fst_conv snd_conv
    by (rule exI) (rule refl)
  show "\<exists>bic st'. merge_step times' signal signal_err i_sectors f_n a_n ph_n f_sets replacement
                 n_param_of2 i st =
               (if i \<in> set (m_used_sets st) then st
                else if m_bic_prev st - bic > 1 / 200 then st' else st) \<and>
               m_bic_prev st' = bic \<and> m_remove_sets st' = m_remove_sets st @ [i]"
    unfolding merge_step_def Let_def split_beta np_round2_gt_0
    by (intro exI conjI, rule refl) simp_all
  show "\<exists>bic acc rej.
       extract_additional_harmonics_step times' signal signal_err p_orb i_sectors n_param_orig h_c
         (const, slope, f_n, a_n, ph_n, resid, bic_prev, n_accepted) =
       (if bic_prev - bic > 401 / 200 then acc else rej) \<and>
       fst (snd (snd acc)) = f_n @ [real h_c / p_orb] \<and>
       fst (snd (snd (snd (snd (snd (snd acc)))))) = bic \<and>
       fst (snd (snd rej)) = f_n \<and>
       fst (snd (snd (snd (snd (snd (snd rej)))))) = bic_prev"
    unfolding extract_additional_harmonics_step_def Let_def split_beta np_round2_gt_2 prod.case fst_conv snd_conv
    by (intro exI conjI, rule refl) simp_all
qed

theorem bic_decisions_witness:
  "extract_all_loop af_spec [0, 1, 2] [1, 2, 3] [1, 1, 1] [(0, 3)]
     \<lparr>s_const = [1], s_slope = [1], s_f_n = [], s_a_n = [], s_ph_n = [],
      s_f_n_temp = [1 / 4], s_a_n_temp = [1], s_ph_n_temp = [0],
      s_bic_prev = Fin (2003 / 1000), s_bic = 0, s_resid = [0, 0, 0], s_i = 1\<rparr> =
   Option.bind
     (extract_all_body af_spec [0, 1, 2] [1, 2, 3] [1, 1, 1] [(0, 3)]
        \<lparr>s_const = [1], s_slope = [1], s_f_n = [], s_a_n = [], s_ph_n = [],
         s_f_n_temp = [1 / 4], s_a_n_temp = [1], s_ph_n_temp = [0],
         s_bic_prev = Fin (2003 / 1000), s_bic = 0, s_resid = [0, 0, 0], s_i = 1\<rparr>)
     (extract_all_loop af_spec [0, 1, 2] [1, 2, 3] [1, 1, 1] [(0, 3)]) \<and>
   refine_subset_loop [0, 1, 2] [1, 2, 3] [1, 1, 1] [0] [(0, 3)] 5
     \<lparr>s_const = [1], s_slope = [1], s_f_n = [], s_a_n = [], s_ph_n = [],
      s_f_n_temp = [1 / 4], s_a_n_temp = [1], s_ph_n_temp = [0],
      s_bic_prev = Fin (3 / 1000), s_bic = 0, s_resid = [0, 0, 0], s_i = 1\<rparr> =
   Some \<lparr>s_const = [1], s_slope = [1], s_f_n = [], s_a_n = [], s_ph_n = [],
      s_f_n_temp = [1 / 4], s_a_n_temp = [1], s_ph_n_temp = [0],
      s_bic_prev = Fin (3 / 1000), s_bic = 0, s_resid = [0, 0, 0], s_i = 1\<rparr>"
  using bic_decisions [of af_spec "[0, 1, 2]" "[1, 2, 3]" "[1, 1, 1]" "[(0, 3)]"
      "\<lparr>s_const = [1], s_slope = [1], s_f_n = [], s_a_n = [], s_ph_n = [],
      s_f_n_temp = [1 / 4], s_a_n_temp = [1], s_ph_n_temp = [0],
      s_bic_prev = Fin (2003 / 1000), s_bic = 0, s_resid = [0, 0, 0], s_i = 1\<rparr>"]
    bic_decisions [of _ "[0, 1, 2]" "[1, 2, 3]" "[1, 1, 1]" "[(0, 3)]"
      "\<lparr>s_const = [1], s_slope = [1], s_f_n = [], s_a_n = [], s_ph_n = [],
      s_f_n_temp = [1 / 4], s_a_n_temp = [1], s_ph_n_temp = [0],
      s_bic_prev = Fin (3 / 1000), s_bic = 0, s_resid = [0, 0, 0], s_i = 1\<rparr>" _ _ "[0]" 5]
  by simp

subsection \<open>The phase wrap\<close>

lemma py_mod_range:
  assumes "0 < y"
  shows "0 \<le> py_mod x y \<and> py_mod x y < y"
proof -
  have a: "of_int \<lfloor>x / y\<rfloor> \<le> x / y" and b: "x / y < of_int \<lfloor>x / y\<rfloor> + 1" by linarith+
  from a assms have "of_int \<lfloor>x / y\<rfloor> * y \<le> x"
    using pos_le_divide_eq[of y "of_int \<lfloor>x / y\<rfloor>" x] by simp
  moreover from b assms have "x < (of_int \<lfloor>x / y\<rfloor> + 1) * y"
    using pos_divide_less_eq[of y x "of_int \<lfloor>x / y\<rfloor> + 1"] by simp
  ultimately show ?thesis by (simp add: py_mod_def algebra_simps)
qed

lemma wrap_phase_range: "- pi \<le> wrap_phase ph \<and> wrap_phase ph < pi"
  using py_mod_range[of "2 * pi" "ph + pi"] by (simp add: wrap_phase_def)

lemma wrap_phase_pi: "wrap_phase pi = - pi"
proof -
  have "py_mod (2 * pi) (2 * pi) = 0" by (simp add: py_mod_def)
  then show ?thesis by (simp add: wrap_phase_def)
qed

subsection \<open>The grid of the periodogram\<close>












subsection \<open>The sentinel of the harmonic-avoiding extractor\<close>





lemma ptp_half: "np_ptp [0, 1 / 4, 1 / 2] = 1 / 2"
  by (simp add: np_ptp_def np_max_def np_min_def)

lemma cos_half_pi_a: "cos (2 * pi * (1 / 4)) = 0" "cos (2 * pi / 4) = 0" "cos (pi / 2) = 0"
  by (simp_all add: cos_pi_half)

lemma phase_ex: "scargle_phase_single [0, 1 / 4, 1 / 2] [0, - 1, 0] 1 = pi"
  unfolding scargle_phase_single_def Let_def
  by (simp add: arctan2_def)

lemma linear_curve_zero3: "linear_curve [0, 1 / 4, 1 / 2] [0] [0] [(0, 3)] = [0, 0, 0]"
  by (simp add: linear_curve_def upt_rec)

lemma np_delete_single0: "np_delete [x] [0] = []"
  by (simp add: np_delete_def)

lemma ampl_ex: "scargle_ampl_single [0, 1 / 4, 1 / 2] [0, - 1, 0] 1 = sqrt (2 / 3)"
  unfolding scargle_ampl_single_def Let_def
  by (simp add: arctan2_def real_sqrt_mult[symmetric])

lemma fix_harmonic_step_ex:
  "fix_harmonic_step af_spec [0, 1 / 4, 1 / 2] [0, - 1, 0] 1 [(0, 3)] (1 / 2) (Suc 0)
     ([0], [0], [1], [1], [0]) =
   ([(sqrt (2 / 3) - 1) / 3], [0], [1], [sqrt (2 / 3)], [- pi])"
  unfolding fix_harmonic_step_def Let_def split_beta
  by (simp add: tol_spec_one np_delete_single0 linear_curve_zero3 vadd_def vsub_def
      sum_sines_def phase_ex wrap_phase_pi ampl_ex linear_pars_def slice_def np_mean_def)

lemma fix_harmonic_frequency_ex:
  "fix_harmonic_frequency af_spec [0, 1 / 4, 1 / 2] [0, - 1, 0] 1 [0] [0] [1] [1] [0] [(0, 3)]
     = Inr ([(sqrt (2 / 3) - 1) / 3], [0], [1], [sqrt (2 / 3)], [- pi])"
  unfolding fix_harmonic_frequency_def Let_def split_beta
  by (simp add: ptp_half tol_spec_one np_unique_def fix_harmonic_step_ex pat_spec_one
      np_delete_single0)

lemma phases_wrapped_Nil: "phases_wrapped []"
  by (simp add: phases_wrapped_def)

lemma phases_wrapped_update:
  "phases_wrapped xs \<Longrightarrow> - pi \<le> v \<and> v < pi \<Longrightarrow> phases_wrapped (xs[j := v])"
  unfolding phases_wrapped_def using set_update_subset_insert[of xs j v] by blast

lemma phases_wrapped_append:
  "phases_wrapped (xs @ ys) \<longleftrightarrow> phases_wrapped xs \<and> phases_wrapped ys"
  by (auto simp: phases_wrapped_def)

lemma phases_wrapped_single: "phases_wrapped [v] \<longleftrightarrow> - pi \<le> v \<and> v < pi"
  by (simp add: phases_wrapped_def)

lemma set_np_delete: "set (np_delete xs r) \<subseteq> set xs"
  by (auto simp: np_delete_def dest: set_zip_leftD)

lemma phases_wrapped_delete: "phases_wrapped xs \<Longrightarrow> phases_wrapped (np_delete xs r)"
  unfolding phases_wrapped_def using set_np_delete[of xs r] by blast

lemma extract_single_phase:
  "- pi \<le> snd (snd (extract_single t y f0 fn)) \<and> snd (snd (extract_single t y f0 fn)) < pi"
  unfolding extract_single_def Let_def split_beta using wrap_phase_range by simp

lemma extract_single_harmonics_phase:
  "- pi \<le> snd (snd (extract_single_harmonics t y p f0 fn)) \<and>
   snd (snd (extract_single_harmonics t y p f0 fn)) < pi"
  unfolding extract_single_harmonics_def Let_def split_beta using wrap_phase_range pi_gt_zero
  by (simp add: less_imp_le)

lemma refine_subset_step_wrapped:
  "phases_wrapped (snd (snd st)) \<Longrightarrow>
   phases_wrapped (snd (snd (refine_subset_step t y sec fr c sl j st)))"
  unfolding refine_subset_step_def Let_def split_beta
  by (simp add: phases_wrapped_update extract_single_phase)

lemma refine_subset_fold_wrapped:
  "phases_wrapped (snd (snd st)) \<Longrightarrow>
   phases_wrapped (snd (snd (fold (refine_subset_step t y sec fr c sl) js st)))"
proof (induction js arbitrary: st)
  case Nil then show ?case by simp
next
  case (Cons j js)
  from Cons.IH[OF refine_subset_step_wrapped[OF Cons.prems]] show ?case by simp
qed

lemma refine_subset_body_wrapped:
  assumes "state_wrapped s"
  shows "state_wrapped (refine_subset_body t y err close_f sec k s)"
  using assms
    refine_subset_fold_wrapped[of "(s_f_n_temp s, s_a_n_temp s, s_ph_n_temp s)" t y sec
      "1.5 / np_ptp t" "s_const s" "s_slope s" close_f]
  unfolding refine_subset_body_def Let_def split_beta state_wrapped_def
  by simp

lemma refine_subset_loop_wrapped:
  assumes "refine_subset_loop t y err close_f sec k s = Some r" and "state_wrapped s"
  shows "state_wrapped r"
proof -
  have "state_wrapped s \<longrightarrow> state_wrapped r"
  proof (rule refine_subset_loop.raw_induct
      [where P = "\<lambda>t y err close_f sec k s r. state_wrapped s \<longrightarrow> state_wrapped r", OF _ assms(1)])
    fix loop t y err close_f sec k s r
    assume IH: "\<And>t y err close_f sec k s r. loop t y err close_f sec k s = Some r \<Longrightarrow>
        state_wrapped s \<longrightarrow> state_wrapped r"
      and eq: "(if round_diff_gt (s_bic_prev s) (s_bic s) 0
        then loop t y err close_f sec k (refine_subset_body t y err close_f sec k s)
        else Some s) = Some r"
    show "state_wrapped s \<longrightarrow> state_wrapped r"
    proof (cases "round_diff_gt (s_bic_prev s) (s_bic s) 0")
      case True
      with eq have "loop t y err close_f sec k (refine_subset_body t y err close_f sec k s) = Some r"
        by simp
      from IH[OF this] show ?thesis by (simp add: refine_subset_body_wrapped)
    next
      case False
      with eq show ?thesis by simp
    qed
  qed
  with assms(2) show ?thesis by simp
qed

lemma refine_subset_wrapped:
  assumes "refine_subset t y err close_f c sl f a ph sec = Some out" and "phases_wrapped ph"
  shows "phases_wrapped (snd (snd (snd (snd out))))"
proof -
  from assms(1) obtain r s0 k where
    l: "refine_subset_loop t y err close_f sec k s0 = Some r"
    and s0: "state_wrapped s0"
    and r: "snd (snd (snd (snd out))) = s_ph_n r"
    unfolding refine_subset_def Let_def split_beta bind_eq_Some_conv
    using assms(2) by (auto simp: state_wrapped_def)
  from refine_subset_loop_wrapped[OF l s0] r show ?thesis by (simp add: state_wrapped_def)
qed

lemma extract_all_body_wrapped:
  assumes "extract_all_body af t y err sec s = Some s'" and "state_wrapped s"
  shows "state_wrapped s'"
proof (cases "s_i s > 0 \<and> length (f_within_rayleigh af (s_i s)
          (s_f_n_temp s @ [fst (extract_single t (s_resid s) 0 0)]) (1.5 / np_ptp t)) > 1")
  case True
  from assms(2) have w: "phases_wrapped (s_ph_n_temp s @ [snd (snd (extract_single t (s_resid s) 0 0))])"
    by (simp add: phases_wrapped_append phases_wrapped_single extract_single_phase state_wrapped_def)
  from assms(1) True obtain out where
    rs: "refine_subset t y err
          (f_within_rayleigh af (s_i s) (s_f_n_temp s @ [fst (extract_single t (s_resid s) 0 0)])
             (1.5 / np_ptp t))
          (s_const s) (s_slope s)
          (s_f_n_temp s @ [fst (extract_single t (s_resid s) 0 0)])
          (s_a_n_temp s @ [fst (snd (extract_single t (s_resid s) 0 0))])
          (s_ph_n_temp s @ [snd (snd (extract_single t (s_resid s) 0 0))]) sec = Some out"
    and s': "s_ph_n s' = s_ph_n_temp s" "s_ph_n_temp s' = snd (snd (snd (snd out)))"
    unfolding extract_all_body_def Let_def split_beta bind_eq_Some_conv
    by auto
  from refine_subset_wrapped[OF rs w] s' assms(2) show ?thesis by (simp add: state_wrapped_def)
next
  case False
  from assms(1) False have s': "s_ph_n s' = s_ph_n_temp s"
      "s_ph_n_temp s' = s_ph_n_temp s @ [snd (snd (extract_single t (s_resid s) 0 0))]"
    unfolding extract_all_body_def Let_def split_beta bind_eq_Some_conv
    by auto
  with assms(2) show ?thesis
    by (simp add: phases_wrapped_append phases_wrapped_single extract_single_phase state_wrapped_def)
qed

lemma extract_all_loop_wrapped:
  assumes "extract_all_loop af t y err sec s = Some r" and "state_wrapped s"
  shows "state_wrapped r"
proof -
  have "state_wrapped s \<longrightarrow> state_wrapped r"
  proof (rule extract_all_loop.raw_induct
      [where P = "\<lambda>af t y err sec s r. state_wrapped s \<longrightarrow> state_wrapped r", OF _ assms(1)])
    fix loop af t y err sec s r
    assume IH: "\<And>af t y err sec s r. loop af t y err sec s = Some r \<Longrightarrow>
        state_wrapped s \<longrightarrow> state_wrapped r"
      and eq: "(if diff_gt (s_bic_prev s) (s_bic s) 2
        then Option.bind (extract_all_body af t y err sec s) (loop af t y err sec)
        else Some s) = Some r"
    show "state_wrapped s \<longrightarrow> state_wrapped r"
    proof (cases "diff_gt (s_bic_prev s) (s_bic s) 2")
      case True
      with eq obtain s' where b: "extract_all_body af t y err sec s = Some s'"
        and l: "loop af t y err sec s' = Some r"
        by (auto simp: bind_eq_Some_conv)
      from IH[OF l] extract_all_body_wrapped[OF b] show ?thesis by simp
    next
      case False
      with eq show ?thesis by simp
    qed
  qed
  with assms(2) show ?thesis by simp
qed

lemma extract_all_wrapped:
  assumes "extract_all af t y err sec = Some out"
  shows "phases_wrapped (snd (snd (snd (snd out))))"
proof -
  from assms obtain r where
    l: "extract_all_loop af (map (\<lambda>x. x - hd t) t) y err sec
          (extract_all_init (map (\<lambda>x. x - hd t) t) y err sec) = Some r"
    and r: "snd (snd (snd (snd out))) = s_ph_n r"
    unfolding extract_all_def Let_def split_beta bind_eq_Some_conv by auto
  have "state_wrapped (extract_all_init (map (\<lambda>x. x - hd t) t) y err sec)"
    unfolding extract_all_init_def Let_def split_beta state_wrapped_def
    by (simp add: phases_wrapped_Nil)
  from extract_all_loop_wrapped[OF l this] r show ?thesis by (simp add: state_wrapped_def)
qed

lemma fix_harmonic_step_wrapped:
  "phases_wrapped (snd (snd (snd (snd st)))) \<Longrightarrow>
   phases_wrapped (snd (snd (snd (snd (fix_harmonic_step af t y p sec tol n st)))))"
  unfolding fix_harmonic_step_def Let_def split_beta
  by (simp add: phases_wrapped_update phases_wrapped_append phases_wrapped_delete
      phases_wrapped_single wrap_phase_range)

lemma fix_harmonic_step_fold_wrapped:
  "phases_wrapped (snd (snd (snd (snd st)))) \<Longrightarrow>
   phases_wrapped (snd (snd (snd (snd (fold (fix_harmonic_step af t y p sec tol) ns st)))))"
proof (induction ns arbitrary: st)
  case Nil then show ?case by simp
next
  case (Cons n ns)
  from Cons.IH[OF fix_harmonic_step_wrapped[OF Cons.prems]] show ?case by simp
qed

lemma fix_harmonic_reextract_wrapped:
  "phases_wrapped (snd (snd (snd (snd st)))) \<Longrightarrow>
   phases_wrapped (snd (snd (snd (snd (fix_harmonic_reextract t y sec fr i st)))))"
  unfolding fix_harmonic_reextract_def Let_def split_beta
  by (simp add: phases_wrapped_update extract_single_phase wrap_phase_range)

lemma fix_harmonic_reextract_fold_wrapped:
  "phases_wrapped (snd (snd (snd (snd st)))) \<Longrightarrow>
   phases_wrapped (snd (snd (snd (snd (fold (fix_harmonic_reextract t y sec fr) js st)))))"
proof (induction js arbitrary: st)
  case Nil then show ?case by simp
next
  case (Cons j js)
  from Cons.IH[OF fix_harmonic_reextract_wrapped[OF Cons.prems]] show ?case by simp
qed

lemma fix_harmonic_frequency_wrapped:
  assumes "fix_harmonic_frequency af t y p c sl f a ph sec = Inr out" and "phases_wrapped ph"
  shows "phases_wrapped (snd (snd (snd (snd out))))"
proof -
  define tol where "tol = min (1.5 / np_ptp t / 2) (1 / (2 * p))"
  define st1 where "st1 = fold (fix_harmonic_step af t y p sec tol)
     (np_unique (snd (find_harmonics_tolerance af f p tol))) (c, sl, f, a, ph)"
  have w1: "phases_wrapped (snd (snd (snd (snd st1))))"
    unfolding st1_def using assms(2) by (intro fix_harmonic_step_fold_wrapped) simp
  from assms(1) have "\<exists>js. out = fold (fix_harmonic_reextract t y sec (1.5 / np_ptp t)) js st1"
    unfolding fix_harmonic_frequency_def Let_def split_beta st1_def tol_def
    by (auto split: if_splits)
  then obtain js where "out = fold (fix_harmonic_reextract t y sec (1.5 / np_ptp t)) js st1" ..
  with fix_harmonic_reextract_fold_wrapped[OF w1] show ?thesis by simp
qed

lemma extract_additional_harmonics_step_wrapped:
  "phases_wrapped (fst (snd (snd (snd (snd st))))) \<Longrightarrow>
   phases_wrapped (fst (snd (snd (snd (snd
      (extract_additional_harmonics_step t y err p sec k h st))))))"
  unfolding extract_additional_harmonics_step_def Let_def split_beta
  by (simp add: phases_wrapped_append phases_wrapped_single wrap_phase_range)

lemma extract_additional_harmonics_fold_wrapped:
  "phases_wrapped (fst (snd (snd (snd (snd st))))) \<Longrightarrow>
   phases_wrapped (fst (snd (snd (snd (snd
      (fold (extract_additional_harmonics_step t y err p sec k) hs st))))))"
proof (induction hs arbitrary: st)
  case Nil then show ?case by simp
next
  case (Cons h hs)
  from Cons.IH[OF extract_additional_harmonics_step_wrapped[OF Cons.prems]] show ?case by simp
qed

lemma extract_additional_harmonics_wrapped:
  assumes "extract_additional_harmonics af t y err p c sl f a ph sec = Inr out"
    and "phases_wrapped ph"
  shows "phases_wrapped (snd (snd (snd (snd out))))"
proof -
  define k where "k = 3 * int (length f) + 2 - int (length (fst (find_harmonics_from_pattern af f p))) + 1"
  define hs where "hs = np_delete [1..<nat \<lceil>p * (1 / (2 * np_min (vsub (tl t) (butlast t))))\<rceil>]
      (map (\<lambda>n. n - 1) (snd (find_harmonics_from_pattern af f p)))"
  define r where "r = vsub y (vadd (linear_curve t c sl sec) (sum_sines t f a ph))"
  define st where "st = fold (extract_additional_harmonics_step t y err p sec k) hs
         (c, sl, f, a, ph, r, calc_bic (vdiv r err) k, 0)"
  have w: "phases_wrapped (fst (snd (snd (snd (snd st)))))"
    unfolding st_def using assms(2) by (intro extract_additional_harmonics_fold_wrapped) simp
  from assms(1) have "out = (fst st, fst (snd st), fst (snd (snd st)), fst (snd (snd (snd st))),
       fst (snd (snd (snd (snd st)))))"
    unfolding extract_additional_harmonics_def Let_def split_beta st_def r_def hs_def k_def
    by (simp split: if_splits)
  with w show ?thesis by simp
qed

lemma merge_step_wrapped:
  assumes "\<And>resid set_i. phases_wrapped (snd (snd (replacement resid set_i)))"
    and "phases_wrapped (m_ph_new st)"
  shows "phases_wrapped (m_ph_new (merge_step t y err sec f a ph f_sets replacement np i st))"
  using assms unfolding merge_step_def Let_def split_beta
  by (simp add: phases_wrapped_append)

lemma merge_fold_wrapped:
  assumes "\<And>resid set_i. phases_wrapped (snd (snd (replacement resid set_i)))"
  shows "phases_wrapped (m_ph_new st) \<Longrightarrow>
    phases_wrapped (m_ph_new (fold (merge_step t y err sec f a ph f_sets replacement np) js st))"
proof (induction js arbitrary: st)
  case Nil then show ?case by simp
next
  case (Cons j js)
  from Cons.IH[OF merge_step_wrapped[OF assms Cons.prems]] show ?case by simp
qed

lemma merge_loop_wrapped:
  "(\<And>resid set_i. phases_wrapped (snd (snd (replacement resid set_i)))) \<Longrightarrow>
   phases_wrapped (m_ph_new st) \<Longrightarrow>
   phases_wrapped (m_ph_new (merge_loop t y err sec f a ph close_f_g keep replacement np st))"
proof (induction t y err sec f a ph close_f_g keep replacement np st rule: merge_loop.induct)
  case (1 t y err sec f a ph close_f_g keep replacement np st)
  define st' where "st' = fold (merge_step t y err sec f a ph (filter keep (f_sets_of close_f_g))
       replacement np) [0..<length (filter keep (f_sets_of close_f_g))] st"
  have w: "phases_wrapped (m_ph_new st')"
    unfolding st'_def by (rule merge_fold_wrapped[OF "1.prems"(1) "1.prems"(2)])
  show ?case
  proof (cases "length (m_remove_sets st') > length (m_remove_sets st)")
    case True
    from "1.IH"[OF refl st'_def True "1.prems"(1) w]
    show ?thesis
      by (subst merge_loop.simps) (simp add: Let_def st'_def[symmetric] True)
  next
    case False
    with w show ?thesis
      by (subst merge_loop.simps) (simp add: Let_def st'_def[symmetric])
  qed
qed

lemma replace_by_single_wrapped:
  "phases_wrapped (snd (snd (replace_by_single t f fr resid set_i)))"
  unfolding replace_by_single_def Let_def split_beta
  by (simp add: phases_wrapped_single extract_single_phase)

lemma reduce_frequencies_merge_wrapped:
  "phases_wrapped (m_ph_new (reduce_frequencies_merge af t y err f a ph sec b))"
  unfolding reduce_frequencies_merge_def Let_def
  by (intro merge_loop_wrapped replace_by_single_wrapped)
     (simp add: merge_init_def phases_wrapped_Nil)

lemma reduce_frequencies_wrapped:
  assumes "phases_wrapped ph"
  shows "phases_wrapped (snd (snd (snd (snd (reduce_frequencies af t y err c sl f a ph sec)))))"
  unfolding reduce_frequencies_def Let_def split_beta
  using assms
  by (simp add: phases_wrapped_append phases_wrapped_delete reduce_frequencies_merge_wrapped)

subsection \<open>The range of the emitted phases\<close>

text \<open>
  Claim C5, as stated: every emitted phase lies in \<open>(-pi, pi]\<close>. The wrap of the source,
  \<^verbatim>\<open>(ph + pi) % (2 * pi) - pi\<close>, maps a phase of \<open>pi\<close> to \<open>-pi\<close>. The signal
  \<open>- sin (2 * pi * t)\<close> sampled at \<open>t = 0, 1/4, 1/2\<close> has the single-frequency phase \<open>pi\<close>
  at frequency \<open>1\<close>, so harmonic locking with period \<open>1\<close> returns the phase \<open>-pi\<close>, which
  is not in \<open>(-pi, pi]\<close>.
\<close>

theorem phase_minus_pi_counterexample:
  "fix_harmonic_frequency af_spec [0, 1 / 4, 1 / 2] [0, - 1, 0] 1 [0] [0] [1] [1] [0] [(0, 3)]
     = Inr ([(sqrt (2 / 3) - 1) / 3], [0], [1], [sqrt (2 / 3)], [- pi]) \<and>
   \<not> (- pi < - pi \<and> - pi \<le> pi)"
  using fix_harmonic_frequency_ex by simp

text \<open>
  Claim C5, amended: every phase emitted by a stage that wraps lies in \<open>[-pi, pi)\<close>.
  \<^verbatim>\<open>extract_single\<close>, \<^verbatim>\<open>extract_single_harmonics\<close> (the sentinel phase \<open>0\<close> included) and
  \<^verbatim>\<open>extract_all\<close> emit only phases in \<open>[-pi, pi)\<close>, for all inputs. \<^verbatim>\<open>refine_subset\<close>,
  \<^verbatim>\<open>fix_harmonic_frequency\<close>, \<^verbatim>\<open>extract_additional_harmonics\<close> and \<^verbatim>\<open>reduce_frequencies\<close>
  hand some of the phases they are given back unchanged; when the phases they are given
  lie in \<open>[-pi, pi)\<close>, so do all the phases they return.
\<close>

theorem emitted_phases_wrapped:
  "phases_wrapped [snd (snd (extract_single times' signal f0 fn))] \<and>
   phases_wrapped [snd (snd (extract_single_harmonics times' signal p_orb f0 fn))] \<and>
   (\<forall>const' slope' f' a' ph'.
      extract_all af times' signal signal_err i_sectors = Some (const', slope', f', a', ph')
        \<longrightarrow> phases_wrapped ph') \<and>
   (phases_wrapped ph_n \<longrightarrow>
      (\<forall>const' slope' f' a' ph'.
         refine_subset times' signal signal_err close_f const slope f_n a_n ph_n i_sectors
           = Some (const', slope', f', a', ph') \<longrightarrow> phases_wrapped ph') \<and>
      (\<forall>const' slope' f' a' ph'.
         fix_harmonic_frequency af times' signal p_orb const slope f_n a_n ph_n i_sectors
           = Inr (const', slope', f', a', ph') \<longrightarrow> phases_wrapped ph') \<and>
      (\<forall>const' slope' f' a' ph'.
         extract_additional_harmonics af times' signal signal_err p_orb const slope f_n a_n ph_n
           i_sectors = Inr (const', slope', f', a', ph') \<longrightarrow> phases_wrapped ph') \<and>
      phases_wrapped (snd (snd (snd (snd
         (reduce_frequencies af times' signal signal_err const slope f_n a_n ph_n i_sectors))))))"
proof -
  have a: "phases_wrapped [snd (snd (extract_single times' signal f0 fn))]"
    by (simp add: phases_wrapped_single extract_single_phase)
  have b: "phases_wrapped [snd (snd (extract_single_harmonics times' signal p_orb f0 fn))]"
    by (simp add: phases_wrapped_single extract_single_harmonics_phase)
  have c: "phases_wrapped ph'"
    if "extract_all af times' signal signal_err i_sectors = Some (const', slope', f', a', ph')"
    for const' slope' f' a' ph'
    using extract_all_wrapped[OF that] by simp
  have d: "phases_wrapped ph'"
    if "phases_wrapped ph_n"
      "refine_subset times' signal signal_err close_f const slope f_n a_n ph_n i_sectors
           = Some (const', slope', f', a', ph')"
    for const' slope' f' a' ph'
    using refine_subset_wrapped[OF that(2) that(1)] by simp
  have e: "phases_wrapped ph'"
    if "phases_wrapped ph_n"
      "fix_harmonic_frequency af times' signal p_orb const slope f_n a_n ph_n i_sectors
           = Inr (const', slope', f', a', ph')"
    for const' slope' f' a' ph'
    using fix_harmonic_frequency_wrapped[OF that(2) that(1)] by simp
  have f: "phases_wrapped ph'"
    if "phases_wrapped ph_n"
      "extract_additional_harmonics af times' signal signal_err p_orb const slope f_n a_n ph_n
           i_sectors = Inr (const', slope', f', a', ph')"
    for const' slope' f' a' ph'
    using extract_additional_harmonics_wrapped[OF that(2) that(1)] by simp
  have g: "phases_wrapped ph_n \<Longrightarrow> phases_wrapped (snd (snd (snd (snd
         (reduce_frequencies af times' signal signal_err const slope f_n a_n ph_n i_sectors)))))"
    by (rule reduce_frequencies_wrapped)
  from a b c d e f g show ?thesis by blast
qed

theorem emitted_phases_wrapped_witness:
  "phases_wrapped [0] \<and>
   fix_harmonic_frequency af_spec [0, 1 / 4, 1 / 2] [0, - 1, 0] 1 [0] [0] [1] [1] [0] [(0, 3)]
     = Inr ([(sqrt (2 / 3) - 1) / 3], [0], [1], [sqrt (2 / 3)], [- pi]) \<and>
   phases_wrapped [- pi] \<and>
   phases_wrapped [snd (snd (extract_single [0, 1 / 4, 1 / 2] [0, - 1, 0] 0 0))] \<and>
   phases_wrapped (snd (snd (snd (snd
      (reduce_frequencies af_spec [0, 1 / 4, 1 / 2] [0, - 1, 0] [1, 1, 1] [0] [0] [1] [1] [0]
         [(0, 3)])))))"
  using emitted_phases_wrapped [of "[0, 1 / 4, 1 / 2]" "[0, - 1, 0]" 0 0 1 af_spec "[1, 1, 1]"
      "[(0, 3)]" "[0]" "[]" "[0]" "[0]" "[1]" "[1]"]
    fix_harmonic_frequency_ex
  by (auto simp: phases_wrapped_single)


















subsection \<open>Harmonics in the reduction with harmonics\<close>


lemma single_removal_loop_Nil: "single_removal_loop t y err sec f a ph np [] st = st"
  by (subst single_removal_loop.simps) simp


lemma chains_spec_Nil: "chains_within_rayleigh af_spec [] r = []"
  by (simp add: af_spec_def chains_within_rayleigh_spec_def)


lemma f_sets_of_Nil: "f_sets_of [] = []"
  by (simp add: f_sets_of_def)





lemma ln3_bound: "ln (3::real) \<ge> 2 / 3"
  using ln_le_minus_one[of "1 / 3 :: real"] by (simp add: ln_div)

























lemma np_delete_Nil: "np_delete xs [] = xs"
  by (simp add: np_delete_def map_fst_zip)

lemma step_bic_refit:
  "calc_bic (vdiv (vsub y (vadd (sum_sines t f a ph)
        (linear_curve t (fst (linear_pars t (vsub y (sum_sines t f a ph)) sec))
           (snd (linear_pars t (vsub y (sum_sines t f a ph)) sec)) sec))) err)
     (2 * int (length sec) + 3 * int (length f))
   = refit_bic t y err sec f a ph"
  unfolding refit_bic_def model_bic_def Let_def split_beta
  by (simp add: vadd_commute)

lemma single_removal_step_ok:
  assumes "removal_ok t y err sec f a ph b0 st"
  shows "removal_ok t y err sec f a ph b0
     (single_removal_step t y err sec f a ph (\<lambda>len. 2 * int (length sec) + 3 * int len) i st)"
proof (cases "i \<in> set (fst st)")
  case True
  then show ?thesis using assms
    unfolding single_removal_step_def Let_def split_beta by simp
next
  case False
  define bic where "bic = refit_bic t y err sec (np_delete f (fst st @ [i]))
      (np_delete a (fst st @ [i])) (np_delete ph (fst st @ [i]))"
  have step: "single_removal_step t y err sec f a ph (\<lambda>len. 2 * int (length sec) + 3 * int len) i st
     = (if np_round2 (snd st - bic) > 0 then (fst st @ [i], bic) else (fst st, snd st))"
    using False unfolding single_removal_step_def Let_def split_beta bic_def
    by (simp add: step_bic_refit)
  have le: "snd st \<le> b0" using assms unfolding removal_ok_def by (auto split: if_splits)
  show ?thesis
  proof (cases "np_round2 (snd st - bic) > 0")
    case True
    then have "snd st - bic > 1 / 200" by (simp add: np_round2_gt_0)
    with le have "bic < b0" by linarith
    with True show ?thesis unfolding step removal_ok_def bic_def by simp
  next
    case False
    with assms show ?thesis unfolding step by simp
  qed
qed

lemma single_removal_fold_ok:
  "removal_ok t y err sec f a ph b0 st \<Longrightarrow>
   removal_ok t y err sec f a ph b0
     (fold (single_removal_step t y err sec f a ph (\<lambda>len. 2 * int (length sec) + 3 * int len)) js st)"
proof (induction js arbitrary: st)
  case Nil then show ?case by simp
next
  case (Cons j js)
  from Cons.IH[OF single_removal_step_ok[OF Cons.prems]] show ?case by simp
qed

lemma single_removal_loop_ok:
  "np = (\<lambda>len. 2 * int (length sec) + 3 * int len) \<Longrightarrow>
   removal_ok t y err sec f a ph b0 st \<Longrightarrow>
   removal_ok t y err sec f a ph b0 (single_removal_loop t y err sec f a ph np idx st)"
proof (induction t y err sec f a ph np idx st rule: single_removal_loop.induct)
  case (1 t y err sec f a ph np idx st)
  define st' where "st' = fold (single_removal_step t y err sec f a ph np) idx st"
  have w: "removal_ok t y err sec f a ph b0 st'"
    unfolding st'_def "1.prems"(1) by (rule single_removal_fold_ok[OF "1.prems"(2)])
  show ?case
  proof (cases "length (fst st') > length (fst st)")
    case True
    from "1.IH"[OF st'_def True "1.prems"(1) w] show ?thesis
      by (subst single_removal_loop.simps) (simp add: Let_def st'_def[symmetric] True)
  next
    case False
    with w show ?thesis
      by (subst single_removal_loop.simps) (simp add: Let_def st'_def[symmetric])
  qed
qed

lemma reduce_frequencies_single_ok:
  "removal_ok t y err sec f a ph (model_bic t y err sec c sl f a ph)
     (reduce_frequencies_single t y err c sl f a ph sec)"
  unfolding reduce_frequencies_single_def Let_def
  by (rule single_removal_loop_ok[OF refl])
     (simp add: removal_ok_def model_bic_def Let_def)

lemma merge_step_none:
  assumes "m_remove_sets st = [] \<longrightarrow> m_f_new st = [] \<and> m_a_new st = [] \<and> m_ph_new st = []"
  shows "m_remove_sets (merge_step t y err sec f a ph f_sets repl np i st) = [] \<longrightarrow>
     m_f_new (merge_step t y err sec f a ph f_sets repl np i st) = [] \<and>
     m_a_new (merge_step t y err sec f a ph f_sets repl np i st) = [] \<and>
     m_ph_new (merge_step t y err sec f a ph f_sets repl np i st) = []"
  using assms unfolding merge_step_def Let_def split_beta by simp

lemma merge_fold_none:
  "m_remove_sets st = [] \<longrightarrow> m_f_new st = [] \<and> m_a_new st = [] \<and> m_ph_new st = [] \<Longrightarrow>
   m_remove_sets (fold (merge_step t y err sec f a ph f_sets repl np) js st) = [] \<longrightarrow>
     m_f_new (fold (merge_step t y err sec f a ph f_sets repl np) js st) = [] \<and>
     m_a_new (fold (merge_step t y err sec f a ph f_sets repl np) js st) = [] \<and>
     m_ph_new (fold (merge_step t y err sec f a ph f_sets repl np) js st) = []"
proof (induction js arbitrary: st)
  case Nil then show ?case by simp
next
  case (Cons j js)
  from Cons.IH[OF merge_step_none[OF Cons.prems]] show ?case by simp
qed

lemma merge_loop_none:
  "m_remove_sets st = [] \<longrightarrow> m_f_new st = [] \<and> m_a_new st = [] \<and> m_ph_new st = [] \<Longrightarrow>
   m_remove_sets (merge_loop t y err sec f a ph close_f_g keep repl np st) = [] \<longrightarrow>
     m_f_new (merge_loop t y err sec f a ph close_f_g keep repl np st) = [] \<and>
     m_a_new (merge_loop t y err sec f a ph close_f_g keep repl np st) = [] \<and>
     m_ph_new (merge_loop t y err sec f a ph close_f_g keep repl np st) = []"
proof (induction t y err sec f a ph close_f_g keep repl np st rule: merge_loop.induct)
  case (1 t y err sec f a ph close_f_g keep repl np st)
  define st' where "st' = fold (merge_step t y err sec f a ph (filter keep (f_sets_of close_f_g))
       repl np) [0..<length (filter keep (f_sets_of close_f_g))] st"
  have w: "m_remove_sets st' = [] \<longrightarrow> m_f_new st' = [] \<and> m_a_new st' = [] \<and> m_ph_new st' = []"
    unfolding st'_def by (rule merge_fold_none[OF "1.prems"])
  show ?case
  proof (cases "length (m_remove_sets st') > length (m_remove_sets st)")
    case True
    from "1.IH"[OF refl st'_def True w] show ?thesis
      by (subst (1 2 3 4) merge_loop.simps) (simp add: Let_def st'_def[symmetric] True)
  next
    case False
    with w show ?thesis
      by (subst (1 2 3 4) merge_loop.simps) (simp add: Let_def st'_def[symmetric])
  qed
qed

lemma reduce_frequencies_merge_none:
  assumes "m_remove_sets (reduce_frequencies_merge af t y err f a ph sec b) = []"
  shows "m_f_new (reduce_frequencies_merge af t y err f a ph sec b) = [] \<and>
         m_a_new (reduce_frequencies_merge af t y err f a ph sec b) = [] \<and>
         m_ph_new (reduce_frequencies_merge af t y err f a ph sec b) = []"
proof -
  have "m_remove_sets (merge_init b) = [] \<longrightarrow>
      m_f_new (merge_init b) = [] \<and> m_a_new (merge_init b) = [] \<and> m_ph_new (merge_init b) = []"
    by (simp add: merge_init_def)
  from merge_loop_none[OF this] assms show ?thesis
    unfolding reduce_frequencies_merge_def Let_def by blast
qed

subsection \<open>The BIC of the reduced model\<close>

lemma linear_pars_ex2: "linear_pars [0, 1, 2] [0, 0, 1] [(0, 3)] = ([- (1 / 6)], [1 / 2])"
  by (simp add: linear_pars_def slice_def np_mean_def)

lemma linear_curve_ex2: "linear_curve [0, 1, 2] [- (1 / 6)] [1 / 2] [(0, 3)] = [- (1 / 6), 1 / 3, 5 / 6]"
  by (simp add: linear_curve_def upt_rec)

lemma linear_curve_ex3: "linear_curve [0, 1, 2] [0] [1 / 2] [(0, 3)] = [0, 1 / 2, 1]"
  by (simp add: linear_curve_def upt_rec)

lemma model_bic_in_weighted:
  "model_bic [0, 1, 2] [0, 0, 1] [1, 1, 1 / 10] [(0, 3)] [0] [1 / 2] [] [] []
     = 3 * ln (pi / 6) + 3 + 2 * ln 3"
  by (simp add: model_bic_def linear_curve_ex3 sum_sines_Nil vadd_def vsub_def vdiv_def calc_bic_def power2_eq_square)

lemma model_bic_out_weighted:
  "model_bic [0, 1, 2] [0, 0, 1] [1, 1, 1 / 10] [(0, 3)] [- (1 / 6)] [1 / 2] [] [] []
     = 3 * ln (35 * pi / 18) + 3 + 2 * ln 3"
  by (simp add: model_bic_def linear_curve_ex2 sum_sines_Nil vadd_def vsub_def vdiv_def calc_bic_def power2_eq_square)

lemma reduce_frequencies_single_Nil:
  "reduce_frequencies_single t y err c sl [] a ph sec =
     ([], calc_bic (vdiv (vsub y (vadd (linear_curve t c sl sec) (sum_sines t [] a ph))) err)
            (2 * int (length sec)))"
  unfolding reduce_frequencies_single_def Let_def
  by (subst single_removal_loop.simps) simp

lemma merge_spec_Nil:
  "reduce_frequencies_merge af_spec t y err [] a ph sec b = merge_init b"
  unfolding reduce_frequencies_merge_def Let_def
  by (subst merge_loop.simps)
     (simp add: chains_spec_Nil f_sets_of_Nil Let_def)

lemma reduce_frequencies_ex_weighted:
  "reduce_frequencies af_spec [0, 1, 2] [0, 0, 1] [1, 1, 1 / 10] [0] [1 / 2] [] [] [] [(0, 3)]
     = ([- (1 / 6)], [1 / 2], [], [], [])"
  unfolding reduce_frequencies_def Let_def split_beta
  by (simp add: reduce_frequencies_single_Nil merge_spec_Nil merge_init_def np_delete_Nil
      sum_sines_Nil vsub_def linear_pars_ex2 f_sets_of_Nil chains_spec_Nil)

text \<open>
  Claim C4, as stated: the BIC of the returned model is never above the BIC of the input
  model. The last step of \<^verbatim>\<open>reduce_frequencies\<close> replaces the linear trend by the
  least-squares fit of \<^verbatim>\<open>linear_pars\<close>, which does not weigh the points by their errors,
  while the BIC is computed from the residuals divided by the errors. For the signal
  \<open>0, 0, 1\<close> at the times \<open>0, 1, 2\<close>, with the errors \<open>1, 1, 1/10\<close>, no sinusoid and the input
  trend \<open>t / 2\<close>, the sum of squares of the weighted residuals goes from \<open>1/4\<close> to \<open>35/12\<close>
  and the BIC from \<open>3 ln (pi / 6) + 3 + 2 ln 3\<close> to \<open>3 ln (35 pi / 18) + 3 + 2 ln 3\<close>.
\<close>

theorem reduce_frequencies_bic_counterexample:
  "reduce_frequencies af_spec [0, 1, 2] [0, 0, 1] [1, 1, 1 / 10] [0] [1 / 2] [] [] [] [(0, 3)]
     = ([- (1 / 6)], [1 / 2], [], [], []) \<and>
   model_bic [0, 1, 2] [0, 0, 1] [1, 1, 1 / 10] [(0, 3)] [0] [1 / 2] [] [] []
     = 3 * ln (pi / 6) + 3 + 2 * ln 3 \<and>
   model_bic [0, 1, 2] [0, 0, 1] [1, 1, 1 / 10] [(0, 3)] [- (1 / 6)] [1 / 2] [] [] []
     = 3 * ln (35 * pi / 18) + 3 + 2 * ln 3 \<and>
   \<not> (model_bic [0, 1, 2] [0, 0, 1] [1, 1, 1 / 10] [(0, 3)] [- (1 / 6)] [1 / 2] [] [] []
        \<le> model_bic [0, 1, 2] [0, 0, 1] [1, 1, 1 / 10] [(0, 3)] [0] [1 / 2] [] [] [])"
proof -
  have "pi / 6 < 35 * pi / 18" using pi_gt_zero by simp
  moreover have "0 < pi / 6" using pi_gt_zero by simp
  ultimately have "ln (pi / 6) < ln (35 * pi / 18)" by (simp only: ln_less_cancel_iff)
  then show ?thesis
    unfolding model_bic_in_weighted model_bic_out_weighted reduce_frequencies_ex_weighted
    by simp
qed

text \<open>
  Claim C4, amended, for the runs in which the cluster-merge pass accepts no set. The
  returned sinusoids are the input sinusoids without the positions marked by the
  single-removal pass, and the returned trend is the least-squares trend of the signal
  without them. When the single-removal pass marked a position, the BIC of the returned
  model, with two parameters for every segment and three for every remaining sinusoid,
  is below the BIC of the input model computed the same way. When it marked none, the
  returned sinusoids are those of the input.
\<close>

theorem reduce_frequencies_bic:
  fixes af times' signal signal_err const slope f_n a_n ph_n i_sectors
  defines "removed \<equiv>
      fst (reduce_frequencies_single times' signal signal_err const slope f_n a_n ph_n i_sectors)"
    and "out \<equiv> reduce_frequencies af times' signal signal_err const slope f_n a_n ph_n i_sectors"
  assumes none: "m_remove_sets (reduce_frequencies_sets af times' signal signal_err const slope
                    f_n a_n ph_n i_sectors) = []"
  shows "snd (snd out) = (np_delete f_n removed, np_delete a_n removed, np_delete ph_n removed) \<and>
     (fst out, fst (snd out)) =
        linear_pars times'
          (vsub signal (sum_sines times' (np_delete f_n removed) (np_delete a_n removed)
                          (np_delete ph_n removed))) i_sectors \<and>
     (removed \<noteq> [] \<longrightarrow>
        model_bic times' signal signal_err i_sectors (fst out) (fst (snd out))
            (fst (snd (snd out))) (fst (snd (snd (snd out)))) (snd (snd (snd (snd out))))
          < model_bic times' signal signal_err i_sectors const slope f_n a_n ph_n) \<and>
     (removed = [] \<longrightarrow> snd (snd out) = (f_n, a_n, ph_n))"
proof -
  define single where
    "single = reduce_frequencies_single times' signal signal_err const slope f_n a_n ph_n i_sectors"
  define st where "st = reduce_frequencies_merge af times' signal signal_err
      (np_delete f_n removed) (np_delete a_n removed) (np_delete ph_n removed) i_sectors (snd single)"
  have rm: "removed = fst single" by (simp add: removed_def single_def)
  have st_eq: "reduce_frequencies_sets af times' signal signal_err const slope f_n a_n ph_n i_sectors
      = st"
    unfolding reduce_frequencies_sets_def st_def Let_def split_beta rm single_def by simp
  with none have n: "m_remove_sets st = []" by simp
  from reduce_frequencies_merge_none[OF n[unfolded st_def]]
  have new: "m_f_new st = []" "m_a_new st = []" "m_ph_new st = []" by (simp_all add: st_def)
  have out_eq: "out =
      (fst (linear_pars times'
          (vsub signal (sum_sines times' (np_delete f_n removed) (np_delete a_n removed)
                          (np_delete ph_n removed))) i_sectors),
       snd (linear_pars times'
          (vsub signal (sum_sines times' (np_delete f_n removed) (np_delete a_n removed)
                          (np_delete ph_n removed))) i_sectors),
       np_delete f_n removed, np_delete a_n removed, np_delete ph_n removed)"
    unfolding out_def reduce_frequencies_def Let_def split_beta single_def[symmetric] rm[symmetric]
      st_def[symmetric]
    by (simp add: n new np_delete_Nil)
  have ok: "removal_ok times' signal signal_err i_sectors f_n a_n ph_n
      (model_bic times' signal signal_err i_sectors const slope f_n a_n ph_n) single"
    unfolding single_def by (rule reduce_frequencies_single_ok)
  have lt: "model_bic times' signal signal_err i_sectors (fst out) (fst (snd out))
            (fst (snd (snd out))) (fst (snd (snd (snd out)))) (snd (snd (snd (snd out))))
          < model_bic times' signal signal_err i_sectors const slope f_n a_n ph_n"
    if "removed \<noteq> []"
    using ok that unfolding removal_ok_def rm[symmetric] out_eq refit_bic_def Let_def split_beta
    by simp
  have same: "snd (snd out) = (f_n, a_n, ph_n)" if "removed = []"
    using that unfolding out_eq by (simp add: np_delete_Nil)
  from out_eq lt same show ?thesis by simp
qed

lemma calc_bic_ex2: "calc_bic [1 / 6, - (1 / 3), 1 / 6] k = 3 * ln (pi / 9) + 3 + of_int k * ln 3"
  by (simp add: calc_bic_def power2_eq_square)

lemma removal_step_ex:
  "single_removal_step [0, 1, 2] [0, 0, 1] [1, 1, 1] [(0, 3)] [1 / 4] [0] [0]
     (\<lambda>len. 2 * int (length [(0 :: nat, 3 :: nat)]) + 3 * int len) 0
     ([], 3 * ln (pi / 9) + 3 + 5 * ln 3)
   = ([0], 3 * ln (pi / 9) + 3 + 2 * ln 3)"
proof -
  have "(1::real) / 200 < 3 * ln 3" using ln3_bound by linarith
  then show ?thesis
    unfolding single_removal_step_def Let_def split_beta
    by (simp add: np_delete_single0 sum_sines_Nil vsub_def vadd_def vdiv_def linear_pars_ex2
        linear_curve_ex2 calc_bic_ex2 np_round2_gt_0)
qed

lemma removal_step_ex_again:
  "single_removal_step t y err sec f a ph np 0 ([0], b) = ([0], b)"
  by (simp add: single_removal_step_def)

lemma reduce_frequencies_single_ex:
  "reduce_frequencies_single [0, 1, 2] [0, 0, 1] [1, 1, 1] [- (1 / 6)] [1 / 2] [1 / 4] [0] [0] [(0, 3)]
     = ([0], 3 * ln (pi / 9) + 3 + 2 * ln 3)"
proof -
  have b0: "calc_bic (vdiv (vsub [0, 0, 1]
       (vadd (linear_curve [0, 1, 2] [- (1 / 6)] [1 / 2] [(0, 3)])
          (sum_sines [0, 1, 2] [1 / 4] [0] [0]))) [1, 1, 1]) 5 = 3 * ln (pi / 9) + 3 + 5 * ln 3"
    by (simp add: linear_curve_ex2 sum_sines_zero_ampl vadd_def vsub_def vdiv_def calc_bic_ex2)
  show ?thesis
    unfolding reduce_frequencies_single_def Let_def
    apply (subst single_removal_loop.simps)
    apply (subst single_removal_loop.simps)
    using removal_step_ex
    apply (simp add: b0 Let_def removal_step_ex_again)
    done
qed

lemma reduce_frequencies_ex:
  "reduce_frequencies af_spec [0, 1, 2] [0, 0, 1] [1, 1, 1] [- (1 / 6)] [1 / 2] [1 / 4] [0] [0]
     [(0, 3)] = ([- (1 / 6)], [1 / 2], [], [], [])"
  unfolding reduce_frequencies_def Let_def split_beta
  by (simp add: reduce_frequencies_single_ex merge_spec_Nil merge_init_def np_delete_Nil
      np_delete_single0 sum_sines_Nil vsub_def linear_pars_ex2 f_sets_of_Nil chains_spec_Nil)

lemma reduce_frequencies_sets_ex:
  "m_remove_sets (reduce_frequencies_sets af_spec [0, 1, 2] [0, 0, 1] [1, 1, 1] [- (1 / 6)] [1 / 2]
      [1 / 4] [0] [0] [(0, 3)]) = []"
  unfolding reduce_frequencies_sets_def Let_def split_beta
  by (simp add: reduce_frequencies_single_ex np_delete_single0 merge_spec_Nil merge_init_def)

theorem reduce_frequencies_bic_witness:
  "m_remove_sets (reduce_frequencies_sets af_spec [0, 1, 2] [0, 0, 1] [1, 1, 1] [- (1 / 6)] [1 / 2]
      [1 / 4] [0] [0] [(0, 3)]) = [] \<and>
   fst (reduce_frequencies_single [0, 1, 2] [0, 0, 1] [1, 1, 1] [- (1 / 6)] [1 / 2] [1 / 4] [0] [0]
      [(0, 3)]) = [0] \<and>
   reduce_frequencies af_spec [0, 1, 2] [0, 0, 1] [1, 1, 1] [- (1 / 6)] [1 / 2] [1 / 4] [0] [0]
     [(0, 3)] = ([- (1 / 6)], [1 / 2], [], [], []) \<and>
   model_bic [0, 1, 2] [0, 0, 1] [1, 1, 1] [(0, 3)] [- (1 / 6)] [1 / 2] [] [] []
     < model_bic [0, 1, 2] [0, 0, 1] [1, 1, 1] [(0, 3)] [- (1 / 6)] [1 / 2] [1 / 4] [0] [0]"
  using reduce_frequencies_bic [of af_spec "[0, 1, 2]" "[0, 0, 1]" "[1, 1, 1]" "[- (1 / 6)]"
      "[1 / 2]" "[1 / 4]" "[0]" "[0]" "[(0, 3)]"]
  by (simp add: reduce_frequencies_sets_ex reduce_frequencies_single_ex reduce_frequencies_ex)










subsection \<open>Exactness of the locked harmonics\<close>









end
